theory Spec2Isabelle
  imports Complex_Main
begin

section \<open>Errors and tensors\<close>

text \<open>
  The module is Python over Paddle tensors. A tensor is modelled as Paddle stores it: a
  shape and the elements in row-major order. Elements are real numbers: the model
  idealises float32 arithmetic as exact, so rounding, overflow and NaN are outside it.
  Every exception of the source is a value of \<open>error\<close>; \<open>NonFinite\<close> stands for
  a float computation whose result is infinite or NaN (a division by zero), which the
  reals cannot hold: the source raises nothing there, the model stops.
\<close>

datatype error = KeyError | ValueError | AttributeError | NonFinite

record tensor =
  shape :: "nat list"
  data :: "real list"

definition bind_err :: "error + 'a \<Rightarrow> ('a \<Rightarrow> error + 'b) \<Rightarrow> error + 'b" where
  "bind_err m f = (case m of Inl e \<Rightarrow> Inl e | Inr x \<Rightarrow> f x)"

definition numel :: "nat list \<Rightarrow> nat" where
  "numel s = prod_list s"

definition wf_tensor :: "tensor \<Rightarrow> bool" where
  "wf_tensor t = (length (data t) = numel (shape t))"

text \<open>Row-major position of a multi-index, and the multi-index of a position.\<close>

fun flat_index :: "nat list \<Rightarrow> nat list \<Rightarrow> nat" where
  "flat_index (d # ds) (i # is) = i * prod_list ds + flat_index ds is"
| "flat_index _ _ = 0"

fun unflatten :: "nat list \<Rightarrow> nat \<Rightarrow> nat list" where
  "unflatten [] n = []"
| "unflatten (d # ds) n = (n div prod_list ds) # unflatten ds (n mod prod_list ds)"

fun valid_index :: "nat list \<Rightarrow> nat list \<Rightarrow> bool" where
  "valid_index [] [] = True"
| "valid_index (d # ds) (i # is) = (i < d \<and> valid_index ds is)"
| "valid_index _ _ = False"

definition lookup :: "tensor \<Rightarrow> nat list \<Rightarrow> real" where
  "lookup t idx = data t ! flat_index (shape t) idx"

definition tabulate :: "nat list \<Rightarrow> (nat list \<Rightarrow> real) \<Rightarrow> tensor" where
  "tabulate s f = \<lparr>shape = s, data = map (\<lambda>n. f (unflatten s n)) [0..<numel s]\<rparr>"

section \<open>The Paddle operations the module calls\<close>

text \<open>
  \<open>x.reshape(dims)\<close>: the elements stay in place. One entry of \<open>dims\<close> may be \<open>-1\<close>
  (inferred), an entry \<open>0\<close> copies the dimension of \<open>x\<close> at that position.
\<close>

fun reshape_dims :: "nat list \<Rightarrow> nat \<Rightarrow> int list \<Rightarrow> (error + int list)" where
  "reshape_dims s i [] = Inr []"
| "reshape_dims s i (d # ds) =
     (if d = 0 then
        (if i < length s then
           bind_err (reshape_dims s (Suc i) ds) (\<lambda>r. Inr (int (s ! i) # r))
         else Inl ValueError)
      else if d < -1 then Inl ValueError
      else bind_err (reshape_dims s (Suc i) ds) (\<lambda>r. Inr (d # r)))"

definition reshape :: "tensor \<Rightarrow> int list \<Rightarrow> error + tensor" where
  "reshape t dims =
     bind_err (reshape_dims (shape t) 0 dims) (\<lambda>ds.
       let known = nat (prod_list (filter (\<lambda>d. d \<noteq> -1) ds));
           holes = length (filter (\<lambda>d. d = -1) ds);
           n = numel (shape t)
       in if holes = 0 then
            (if known = n then Inr (t\<lparr>shape := map nat ds\<rparr>) else Inl ValueError)
          else if holes = 1 then
            (if known \<noteq> 0 \<and> n mod known = 0
             then Inr (t\<lparr>shape := map (\<lambda>d. if d = -1 then n div known else nat d) ds\<rparr>)
             else Inl ValueError)
          else Inl ValueError)"

text \<open>\<open>x.unsqueeze(axis)\<close>: a dimension of size 1 at \<open>axis\<close>; a negative axis counts from
  one past the end.\<close>

definition unsqueeze :: "tensor \<Rightarrow> int \<Rightarrow> error + tensor" where
  "unsqueeze t axis =
     (let n = int (length (shape t)); a = (if axis < 0 then axis + n + 1 else axis)
      in if 0 \<le> a \<and> a \<le> n
         then Inr (t\<lparr>shape := take (nat a) (shape t) @ [1] @ drop (nat a) (shape t)\<rparr>)
         else Inl ValueError)"

text \<open>\<open>x.squeeze(axis)\<close>: drops the dimension at \<open>axis\<close> when its size is 1 and leaves the
  tensor as it is otherwise.\<close>

definition squeeze :: "tensor \<Rightarrow> int \<Rightarrow> error + tensor" where
  "squeeze t axis =
     (let n = int (length (shape t)); a = (if axis < 0 then axis + n else axis)
      in if 0 \<le> a \<and> a < n
         then (if shape t ! nat a = 1
               then Inr (t\<lparr>shape := take (nat a) (shape t) @ drop (Suc (nat a)) (shape t)\<rparr>)
               else Inr t)
         else Inl ValueError)"

text \<open>\<open>paddle.tile(x, reps)\<close>: the shorter of the shape and \<open>reps\<close> is padded with
  leading ones; dimension \<open>i\<close> of the result is \<open>shape[i] * reps[i]\<close> and the result
  repeats \<open>x\<close> along every axis.\<close>

definition pad_ones :: "nat \<Rightarrow> nat list \<Rightarrow> nat list" where
  "pad_ones n s = replicate (n - length s) 1 @ s"

definition tile :: "tensor \<Rightarrow> nat list \<Rightarrow> error + tensor" where
  "tile t reps =
     (let n = max (length (shape t)) (length reps);
          s = pad_ones n (shape t);
          r = pad_ones n reps
      in Inr (tabulate (map2 (*) s r)
                (\<lambda>idx. data t ! flat_index s (map2 (\<lambda>i d. i mod d) idx s))))"

text \<open>\<open>paddle.concat([a, b], axis)\<close> for the two-element lists of the module: the shapes
  agree except at \<open>axis\<close>.\<close>

definition concat_t :: "tensor \<Rightarrow> tensor \<Rightarrow> nat \<Rightarrow> error + tensor" where
  "concat_t a b axis =
     (let sa = shape a; sb = shape b
      in if length sa = length sb \<and> axis < length sa \<and> sa[axis := 0] = sb[axis := 0]
         then Inr (tabulate (sa[axis := sa ! axis + sb ! axis])
                     (\<lambda>idx. if idx ! axis < sa ! axis then lookup a idx
                            else lookup b (idx[axis := idx ! axis - sa ! axis])))
         else Inl ValueError)"

text \<open>
  \<open>F.grid_sample(x, grid, mode='bilinear', padding_mode='zeros', align_corners=True)\<close>:
  \<open>x\<close> is \<open>(N, C, H, W)\<close>, \<open>grid\<close> is \<open>(N, H', W', 2)\<close> with \<open>(x, y)\<close> in its last axis.
  A coordinate in \<open>[-1, 1]\<close> is mapped onto \<open>[0, size - 1]\<close>; the four neighbouring
  pixels are weighted bilinearly, a neighbour outside the image counting as 0.
\<close>

definition pixel :: "tensor \<Rightarrow> nat \<Rightarrow> nat \<Rightarrow> int \<Rightarrow> int \<Rightarrow> real" where
  "pixel x n c yy xx =
     (case shape x of
        [N, C, H, W] \<Rightarrow>
          if 0 \<le> yy \<and> yy < int H \<and> 0 \<le> xx \<and> xx < int W
          then lookup x [n, c, nat yy, nat xx] else 0
      | _ \<Rightarrow> 0)"

definition bilinear :: "tensor \<Rightarrow> nat \<Rightarrow> nat \<Rightarrow> real \<Rightarrow> real \<Rightarrow> real" where
  "bilinear x n c gx gy =
     (case shape x of
        [N, C, H, W] \<Rightarrow>
          let ix = (gx + 1) / 2 * (real W - 1);
              iy = (gy + 1) / 2 * (real H - 1);
              x_w = \<lfloor>ix\<rfloor>; x_e = x_w + 1;
              y_n = \<lfloor>iy\<rfloor>; y_s = y_n + 1;
              d_w = ix - of_int x_w; d_e = of_int x_e - ix;
              d_n = iy - of_int y_n; d_s = of_int y_s - iy
          in pixel x n c y_n x_w * d_e * d_s + pixel x n c y_n x_e * d_w * d_s
             + pixel x n c y_s x_w * d_e * d_n + pixel x n c y_s x_e * d_w * d_n
      | _ \<Rightarrow> 0)"

definition grid_sample :: "tensor \<Rightarrow> tensor \<Rightarrow> error + tensor" where
  "grid_sample x grid =
     (case (shape x, shape grid) of
        ([N, C, H, W], [N', H', W', two]) \<Rightarrow>
          if N = N' \<and> two = 2
          then Inr (tabulate [N, C, H', W']
                      (\<lambda>idx. case idx of
                          [n, c, i, j] \<Rightarrow>
                            bilinear x n c (lookup grid [n, i, j, 0]) (lookup grid [n, i, j, 1])
                        | _ \<Rightarrow> 0))
          else Inl ValueError
      | _ \<Rightarrow> Inl ValueError)"

text \<open>Elementwise \<open>a - b\<close>, \<open>a + b\<close>, \<open>a * b\<close> with broadcasting: the shapes are aligned
  at their last axes, and two sizes are compatible when they are equal or one is 1.\<close>

definition broadcast_shape :: "nat list \<Rightarrow> nat list \<Rightarrow> nat list option" where
  "broadcast_shape sa sb =
     (let n = max (length sa) (length sb); pa = pad_ones n sa; pb = pad_ones n sb
      in if list_all2 (\<lambda>x y. x = y \<or> x = 1 \<or> y = 1) pa pb
         then Some (map2 (\<lambda>x y. if x = 1 then y else x) pa pb) else None)"

definition bidx :: "nat list \<Rightarrow> nat list \<Rightarrow> nat list" where
  "bidx s idx = map2 (\<lambda>i d. if d = 1 then 0 else i) (drop (length idx - length s) idx) s"

definition binop :: "(real \<Rightarrow> real \<Rightarrow> real) \<Rightarrow> tensor \<Rightarrow> tensor \<Rightarrow> error + tensor" where
  "binop f a b =
     (case broadcast_shape (shape a) (shape b) of
        None \<Rightarrow> Inl ValueError
      | Some s \<Rightarrow>
          Inr (tabulate s (\<lambda>idx. f (lookup a (bidx (shape a) idx)) (lookup b (bidx (shape b) idx)))))"

definition sub_t :: "tensor \<Rightarrow> tensor \<Rightarrow> error + tensor" where
  "sub_t = binop (-)"

definition add_t :: "tensor \<Rightarrow> tensor \<Rightarrow> error + tensor" where
  "add_t = binop (+)"

definition mul_t :: "tensor \<Rightarrow> tensor \<Rightarrow> error + tensor" where
  "mul_t = binop (*)"

text \<open>\<open>paddle.transpose(x, perm)\<close>: axis \<open>i\<close> of the result is axis \<open>perm[i]\<close> of \<open>x\<close>.\<close>

fun index_of :: "nat list \<Rightarrow> nat \<Rightarrow> nat" where
  "index_of [] j = 0"
| "index_of (p # ps) j = (if p = j then 0 else Suc (index_of ps j))"

definition transpose_t :: "tensor \<Rightarrow> nat list \<Rightarrow> error + tensor" where
  "transpose_t t perm =
     (let n = length (shape t)
      in if length perm = n \<and> distinct perm \<and> list_all (\<lambda>p. p < n) perm
         then Inr (tabulate (map (\<lambda>p. shape t ! p) perm)
                     (\<lambda>idx. lookup t (map (\<lambda>j. idx ! index_of perm j) [0..<n])))
         else Inl ValueError)"

text \<open>\<open>paddle.sum(x, axis)\<close>: the axis is summed out and removed.\<close>

definition sum_t :: "tensor \<Rightarrow> nat \<Rightarrow> error + tensor" where
  "sum_t t axis =
     (let s = shape t
      in if axis < length s
         then Inr (tabulate (take axis s @ drop (Suc axis) s)
                     (\<lambda>idx. sum_list (map (\<lambda>k. lookup t (take axis idx @ [k] @ drop axis idx))
                                       [0..<s ! axis])))
         else Inl ValueError)"

text \<open>\<open>paddle.matmul(x, y)\<close>: the last two axes are multiplied as matrices, the axes
  before them are broadcast. A one-dimensional \<open>x\<close> is taken as a row and a
  one-dimensional \<open>y\<close> as a column, and that axis is removed from the result.\<close>

definition matmul :: "tensor \<Rightarrow> tensor \<Rightarrow> error + tensor" where
  "matmul x y =
     (if shape x = [] \<or> shape y = [] then Inl ValueError
      else
        let sx = (if length (shape x) = 1 then 1 # shape x else shape x);
            sy = (if length (shape y) = 1 then shape y @ [1] else shape y);
            bx = take (length sx - 2) sx; by = take (length sy - 2) sy;
            m = sx ! (length sx - 2); k = last sx;
            k' = sy ! (length sy - 2); n = last sy
        in if k \<noteq> k' then Inl ValueError
           else case broadcast_shape bx by of
                  None \<Rightarrow> Inl ValueError
                | Some bs \<Rightarrow>
                    let r = tabulate (bs @ [m, n])
                          (\<lambda>idx. let b = take (length bs) idx;
                                     i = idx ! length bs; j = idx ! (length bs + 1)
                                 in sum_list (map (\<lambda>l. data x ! flat_index sx (bidx bx b @ [i, l])
                                                       * data y ! flat_index sy (bidx by b @ [l, j]))
                                              [0..<k]))
                    in Inr (r\<lparr>shape := bs @ (if length (shape x) = 1 then [] else [m])
                                           @ (if length (shape y) = 1 then [] else [n])\<rparr>))"

text \<open>
  \<open>paddle.inverse(x)\<close> on a batch of 2 x 2 matrices, by the adjugate. The module's
  jacobians are 2 x 2; a square matrix of another size makes the later product with the
  two-component coordinates raise, so every other shape is an error here. A singular
  matrix has no finite inverse.
\<close>

definition det2 :: "tensor \<Rightarrow> nat \<Rightarrow> real" where
  "det2 x b = data x ! (4 * b) * data x ! (4 * b + 3) - data x ! (4 * b + 1) * data x ! (4 * b + 2)"

definition inverse_t :: "tensor \<Rightarrow> error + tensor" where
  "inverse_t x =
     (let s = shape x; nb = length s - 2
      in if length s < 2 \<or> drop nb s \<noteq> [2, 2] then Inl ValueError
         else if \<exists>b \<in> set [0..<numel (take nb s)]. det2 x b = 0
         then Inl NonFinite
         else Inr (tabulate s
                (\<lambda>idx. let b = flat_index (take nb s) (take nb idx);
                           m00 = data x ! (4 * b); m01 = data x ! (4 * b + 1);
                           m10 = data x ! (4 * b + 2); m11 = data x ! (4 * b + 3);
                           det = m00 * m11 - m01 * m10;
                           i = idx ! nb; j = idx ! (nb + 1)
                       in (if i = 0 \<and> j = 0 then m11
                           else if i = 0 \<and> j = 1 then - m01
                           else if i = 1 \<and> j = 0 then - m10
                           else m00) / det)))"

text \<open>\<open>F.softmax(x, axis=1)\<close> and \<open>F.sigmoid(x)\<close>.\<close>

definition softmax :: "tensor \<Rightarrow> nat \<Rightarrow> error + tensor" where
  "softmax t axis =
     (let s = shape t
      in if axis < length s
         then Inr (tabulate s
                     (\<lambda>idx. exp (lookup t idx)
                            / sum_list (map (\<lambda>k. exp (lookup t (idx[axis := k]))) [0..<s ! axis])))
         else Inl ValueError)"

definition sigmoid :: "tensor \<Rightarrow> tensor" where
  "sigmoid t = tabulate (shape t) (\<lambda>idx. 1 / (1 + exp (- lookup t idx)))"

text \<open>\<open>np.zeros(shape)\<close> as a tensor.\<close>

definition zeros :: "nat list \<Rightarrow> tensor" where
  "zeros s = tabulate s (\<lambda>_. 0)"

text \<open>
  \<open>nn.Conv2D(in_channels, out_channels, kernel_size, padding)\<close>: stride 1, zero padding,
  a weight of shape \<open>(out, in, kh, kw)\<close> and a bias of shape \<open>(out)\<close>. The weights are
  learned; the model takes them as given.
\<close>

record conv2d =
  in_channels :: nat
  out_channels :: nat
  kernel_size :: "nat \<times> nat"
  padding :: "nat \<times> nat"
  weight :: tensor
  bias :: tensor

definition conv2d_forward :: "conv2d \<Rightarrow> tensor \<Rightarrow> error + tensor" where
  "conv2d_forward cv x =
     (case shape x of
        [N, C, H, W] \<Rightarrow>
          let kh = fst (kernel_size cv); kw = snd (kernel_size cv);
              ph = fst (padding cv); pw = snd (padding cv)
          in if C = in_channels cv \<and> kh \<le> H + 2 * ph \<and> kw \<le> W + 2 * pw
             then Inr (tabulate [N, out_channels cv, H + 2 * ph - kh + 1, W + 2 * pw - kw + 1]
                    (\<lambda>idx. case idx of
                       [n, oc, i, j] \<Rightarrow>
                         lookup (bias cv) [oc]
                         + sum_list (map (\<lambda>c.
                             sum_list (map (\<lambda>di.
                               sum_list (map (\<lambda>dj.
                                 lookup (weight cv) [oc, c, di, dj]
                                 * pixel x n c (int i + int di - int ph) (int j + int dj - int pw))
                               [0..<kw]))
                             [0..<kh]))
                           [0..<C])
                     | _ \<Rightarrow> 0))
             else Inl ValueError
      | _ \<Rightarrow> Inl ValueError)"

text \<open>A Python dictionary with string keys; \<open>d[k]\<close> raises \<open>KeyError\<close> on a missing key.\<close>

type_synonym dict = "string \<rightharpoonup> tensor"

definition getitem :: "dict \<Rightarrow> string \<Rightarrow> error + tensor" where
  "getitem d k = (case d k of None \<Rightarrow> Inl KeyError | Some v \<Rightarrow> Inr v)"

section \<open>The helpers of \<open>modules.util\<close>\<close>

text \<open>
  Modelled from the spec: \<open>make_coordinate_grid\<close> of \<open>modules/util.py\<close>, which is not
  among the sources. Section 4.1: the result has shape \<open>(H, W, 2)\<close>, its element
  \<open>(i, j)\<close> is \<open>(x_j, y_i)\<close> with \<open>x\<close> linearly spaced over \<open>[-1, 1]\<close> across the \<open>W\<close>
  columns and \<open>y\<close> across the \<open>H\<close> rows, and non-positive dimensions are rejected. For a
  dimension of 1 the spec fixes no value; the model has the single point at \<open>-1\<close>.
\<close>

definition linspace :: "nat \<Rightarrow> nat \<Rightarrow> real" where
  "linspace n j = (if n \<le> 1 then -1 else 2 * (real j / (real n - 1)) - 1)"

definition make_coordinate_grid :: "nat \<times> nat \<Rightarrow> error + tensor" where
  "make_coordinate_grid spatial_size =
     (case spatial_size of (h, w) \<Rightarrow>
        if h = 0 \<or> w = 0 then Inl ValueError
        else Inr (tabulate [h, w, 2]
               (\<lambda>idx. case idx of
                   [i, j, c] \<Rightarrow> if c = 0 then linspace w j else linspace h i
                 | _ \<Rightarrow> 0)))"

text \<open>
  Modelled from the spec: \<open>kp2gaussian\<close> of \<open>modules/util.py\<close>, which is not among the
  sources. Section 4.2: from the keypoint set's \<open>value\<close> of shape \<open>(batch, K, 2)\<close>, a
  spatial size and a variance, the result has shape \<open>(batch, K, H, W)\<close> and holds
  \<open>exp(-0.5 * ||grid_point - keypoint||^2 / variance)\<close> over the grid of section 4.1.
\<close>

definition kp2gaussian :: "dict \<Rightarrow> nat \<times> nat \<Rightarrow> real \<Rightarrow> error + tensor" where
  "kp2gaussian kp spatial_size kp_variance =
     bind_err (getitem kp ''value'') (\<lambda>mean.
     bind_err (make_coordinate_grid spatial_size) (\<lambda>grid.
       case (shape mean, spatial_size) of
         ([b, k, two], (h, w)) \<Rightarrow>
           if two \<noteq> 2 then Inl ValueError
           else if kp_variance = 0 then Inl NonFinite
           else Inr (tabulate [b, k, h, w]
                  (\<lambda>idx. case idx of
                      [bi, ki, i, j] \<Rightarrow>
                        exp (- 0.5 * ((lookup grid [i, j, 0] - lookup mean [bi, ki, 0])\<^sup>2
                                      + (lookup grid [i, j, 1] - lookup mean [bi, ki, 1])\<^sup>2)
                             / kp_variance)
                    | _ \<Rightarrow> 0))
       | _ \<Rightarrow> Inl ValueError))"

text \<open>
  \<open>Hourglass\<close> and \<open>AntiAliasInterpolation2d\<close> of \<open>modules/util.py\<close> are learned layers
  whose code is not among the sources. They are parameters of the model: a layer is any
  function from a tensor to a tensor or an error. The hourglass also tells its number
  of output channels, \<open>out_filters\<close>.
\<close>

type_synonym layer = "tensor \<Rightarrow> error + tensor"

record hourglass_t =
  out_filters :: nat
  hg_forward :: layer

section \<open>The dense motion network\<close>

text \<open>The attributes of \<open>DenseMotionNetwork\<close>. An attribute that \<open>__init__\<close> does not
  set is \<open>None\<close> here, and reading it raises \<open>AttributeError\<close>.\<close>

record network =
  hourglass :: hourglass_t
  mask :: conv2d
  occlusion :: "conv2d option"
  num_kp :: nat
  scale_factor :: real
  kp_variance :: real
  down :: "layer option"

text \<open>
  \<open>__init__\<close> (lines 14 to 32). \<open>Hourglass\<close> and \<open>AntiAliasInterpolation2d\<close> stand for the
  two constructors of \<open>modules.util\<close>; the weights of the two convolutions are given.
\<close>

definition Conv2D :: "nat \<Rightarrow> nat \<Rightarrow> nat \<times> nat \<Rightarrow> nat \<times> nat \<Rightarrow> tensor \<times> tensor \<Rightarrow> conv2d" where
  "Conv2D n_in n_out ks pad wb =
     \<lparr>in_channels = n_in, out_channels = n_out, kernel_size = ks, padding = pad,
      weight = fst wb, bias = snd wb\<rparr>"

definition init ::
  "(nat \<Rightarrow> nat \<Rightarrow> nat \<Rightarrow> nat \<Rightarrow> hourglass_t) \<Rightarrow> (nat \<Rightarrow> real \<Rightarrow> layer) \<Rightarrow>
   tensor \<times> tensor \<Rightarrow> tensor \<times> tensor \<Rightarrow>
   nat \<Rightarrow> nat \<Rightarrow> nat \<Rightarrow> nat \<Rightarrow> nat \<Rightarrow> bool \<Rightarrow> real \<Rightarrow> real \<Rightarrow> network" where
  "init Hourglass AntiAliasInterpolation2d mask_weights occlusion_weights
        block_expansion num_blocks max_features n_kp num_channels estimate_occlusion_map
        scale kp_var =
     (let hg = Hourglass block_expansion ((n_kp + 1) * (num_channels + 1)) max_features num_blocks
      in \<lparr>hourglass = hg,
          mask = Conv2D (out_filters hg) (n_kp + 1) (7, 7) (3, 3) mask_weights,
          occlusion = (if estimate_occlusion_map
                       then Some (Conv2D (out_filters hg) 1 (7, 7) (3, 3) occlusion_weights)
                       else None),
          num_kp = n_kp,
          scale_factor = scale,
          kp_variance = kp_var,
          down = (if scale \<noteq> 1 then Some (AntiAliasInterpolation2d num_channels scale)
                  else None)\<rparr>)"

text \<open>\<open>create_heatmap_representations\<close> (lines 34 to 47).\<close>

definition create_heatmap_representations ::
  "network \<Rightarrow> tensor \<Rightarrow> dict \<Rightarrow> dict \<Rightarrow> error + tensor" where
  "create_heatmap_representations net source_image kp_driving kp_source =
     (case drop 2 (shape source_image) of
        [h, w] \<Rightarrow>
          bind_err (kp2gaussian kp_driving (h, w) (kp_variance net)) (\<lambda>gaussian_driving.
          bind_err (kp2gaussian kp_source (h, w) (kp_variance net)) (\<lambda>gaussian_source.
          bind_err (sub_t gaussian_driving gaussian_source) (\<lambda>heatmap.
            case shape heatmap of
              [] \<Rightarrow> Inl ValueError
            | b # _ \<Rightarrow>
                bind_err (concat_t (zeros [b, 1, h, w]) heatmap 1) (\<lambda>heatmap1.
                unsqueeze heatmap1 2))))
      | _ \<Rightarrow> Inl ValueError)"

text \<open>The branch of \<open>create_sparse_motions\<close> taken when \<open>kp_driving\<close> has a jacobian
  (lines 58 to 68).\<close>

definition jacobian_branch ::
  "nat \<Rightarrow> nat \<Rightarrow> dict \<Rightarrow> dict \<Rightarrow> tensor \<Rightarrow> error + tensor" where
  "jacobian_branch h w kp_driving kp_source coordinate_grid =
     bind_err (getitem kp_source ''jacobian'') (\<lambda>js.
     bind_err (getitem kp_driving ''jacobian'') (\<lambda>jd.
     bind_err (inverse_t jd) (\<lambda>jd_inv.
     bind_err (matmul js jd_inv) (\<lambda>jacobian.
       case shape jacobian of
         dim_1 # dim_2 # else_dim \<Rightarrow>
           bind_err (reshape jacobian (-1 # map int else_dim)) (\<lambda>jacobian1.
           bind_err (unsqueeze jacobian1 (-3)) (\<lambda>jacobian2.
           bind_err (unsqueeze jacobian2 (-3)) (\<lambda>jacobian3.
           bind_err (tile jacobian3 [1, h, w, 1, 1]) (\<lambda>jacobian4.
             case shape coordinate_grid of
               _ # _ # dimm \<Rightarrow>
                 bind_err (reshape coordinate_grid (-1 # map int dimm)) (\<lambda>coordinate_grid1.
                 bind_err (unsqueeze coordinate_grid1 (-1)) (\<lambda>coordinate_grid2.
                 bind_err (matmul jacobian4 coordinate_grid2) (\<lambda>coordinate_grid3.
                 bind_err (squeeze coordinate_grid3 (-1)) (\<lambda>coordinate_grid4.
                   reshape coordinate_grid4
                     (int dim_1 # int dim_2 # map int (tl (shape coordinate_grid4)))))))
             | _ \<Rightarrow> Inl ValueError))))
       | _ \<Rightarrow> Inl ValueError))))"

text \<open>\<open>create_sparse_motions\<close> (lines 49 to 75).\<close>

definition create_sparse_motions :: "network \<Rightarrow> tensor \<Rightarrow> dict \<Rightarrow> dict \<Rightarrow> error + tensor" where
  "create_sparse_motions net source_image kp_driving kp_source =
     (case shape source_image of
        [bs, c, h, w] \<Rightarrow>
          bind_err (make_coordinate_grid (h, w)) (\<lambda>grid.
          bind_err (reshape grid [1, 1, int h, int w, 2]) (\<lambda>identity_grid.
          bind_err (getitem kp_driving ''value'') (\<lambda>dv.
          bind_err (reshape dv [int bs, int (num_kp net), 1, 1, 2]) (\<lambda>dv1.
          bind_err (sub_t identity_grid dv1) (\<lambda>coordinate_grid.
          bind_err (if kp_driving ''jacobian'' \<noteq> None
                    then jacobian_branch h w kp_driving kp_source coordinate_grid
                    else Inr coordinate_grid) (\<lambda>coordinate_grid1.
          bind_err (getitem kp_source ''value'') (\<lambda>sv.
          bind_err (reshape sv [int bs, int (num_kp net), 1, 1, 2]) (\<lambda>sv1.
          bind_err (add_t coordinate_grid1 sv1) (\<lambda>driving_to_source.
          bind_err (tile identity_grid [bs, 1, 1, 1, 1]) (\<lambda>identity_grid1.
          concat_t identity_grid1 driving_to_source 1))))))))))
      | _ \<Rightarrow> Inl ValueError)"

text \<open>\<open>create_deformed_source_image\<close> (lines 77 to 89).\<close>

definition create_deformed_source_image :: "network \<Rightarrow> tensor \<Rightarrow> tensor \<Rightarrow> error + tensor" where
  "create_deformed_source_image net source_image sparse_motions =
     (case shape source_image of
        [bs, c, h, w] \<Rightarrow>
          bind_err (reshape source_image [-1, int h, int w]) (\<lambda>source_image1.
          bind_err (unsqueeze source_image1 1) (\<lambda>u1.
          bind_err (unsqueeze u1 1) (\<lambda>u2.
          bind_err (tile u2 [num_kp net + 1, 1, 1, 1, 1]) (\<lambda>source_repeat.
          bind_err (reshape source_repeat [int (bs * (num_kp net + 1)), -1, int h, int w])
            (\<lambda>source_repeat1.
          bind_err (reshape sparse_motions [int (bs * (num_kp net + 1)), int h, int w, -1])
            (\<lambda>sparse_motions1.
          bind_err (grid_sample source_repeat1 sparse_motions1) (\<lambda>sparse_deformed.
          reshape sparse_deformed [int bs, int (num_kp net + 1), -1, int h, int w])))))))
      | _ \<Rightarrow> Inl ValueError)"

text \<open>\<open>forward\<close> (lines 91 to 119). The result is the dictionary \<open>out_dict\<close>.\<close>

definition forward :: "network \<Rightarrow> tensor \<Rightarrow> dict \<Rightarrow> dict \<Rightarrow> error + dict" where
  "forward net source_image0 kp_driving kp_source =
     bind_err (if scale_factor net \<noteq> 1
               then (case down net of
                       None \<Rightarrow> Inl AttributeError
                     | Some d \<Rightarrow> d source_image0)
               else Inr source_image0) (\<lambda>source_image.
       case shape source_image of
         [bs, c, h, w] \<Rightarrow>
           bind_err (create_heatmap_representations net source_image kp_driving kp_source)
             (\<lambda>heatmap_representation.
           bind_err (create_sparse_motions net source_image kp_driving kp_source)
             (\<lambda>sparse_motion.
           bind_err (create_deformed_source_image net source_image sparse_motion)
             (\<lambda>deformed_source.
           let out_dict1 = Map.empty(''sparse_deformed'' \<mapsto> deformed_source) in
           bind_err (concat_t heatmap_representation deformed_source 2) (\<lambda>buf.
           bind_err (reshape buf [int bs, -1, int h, int w]) (\<lambda>buf1.
           bind_err (hg_forward (hourglass net) buf1) (\<lambda>prediction.
           bind_err (conv2d_forward (mask net) prediction) (\<lambda>mask0.
           bind_err (softmax mask0 1) (\<lambda>mask1.
           let out_dict2 = out_dict1(''mask'' \<mapsto> mask1) in
           bind_err (unsqueeze mask1 2) (\<lambda>mask2.
           bind_err (transpose_t sparse_motion [0, 1, 4, 2, 3]) (\<lambda>sparse_motion1.
           bind_err (mul_t sparse_motion1 mask2) (\<lambda>prod.
           bind_err (sum_t prod 1) (\<lambda>deformation0.
           bind_err (transpose_t deformation0 [0, 2, 3, 1]) (\<lambda>deformation.
           let out_dict3 = out_dict2(''deformation'' \<mapsto> deformation) in
           (case occlusion net of
              Some occ \<Rightarrow>
                bind_err (conv2d_forward occ prediction) (\<lambda>occ0.
                Inr (out_dict3(''occlusion_map'' \<mapsto> sigmoid occ0)))
            | None \<Rightarrow> Inr out_dict3))))))))))))))
       | _ \<Rightarrow> Inl ValueError)"

section \<open>The claimed warp, and example inputs\<close>

text \<open>
  What the specification says \<open>create_deformed_source_image\<close> returns: entry \<open>(b, k)\<close> is
  source image \<open>b\<close> sampled at the coordinates of sparse motion field \<open>(b, k)\<close>.
\<close>

definition deformed_source_spec :: "nat \<Rightarrow> tensor \<Rightarrow> tensor \<Rightarrow> tensor" where
  "deformed_source_spec K source_image sparse_motions =
     (case shape source_image of
        [bs, c, h, w] \<Rightarrow>
          tabulate [bs, K + 1, c, h, w]
            (\<lambda>idx. case idx of
                [b, k, ch, i, j] \<Rightarrow>
                  bilinear source_image b ch (lookup sparse_motions [b, k, i, j, 0])
                                             (lookup sparse_motions [b, k, i, j, 1])
              | _ \<Rightarrow> 0)
      | _ \<Rightarrow> zeros [])"

text \<open>
  A small network for concrete runs: one keypoint, one image channel, an hourglass that
  returns a one-channel map of zeros at the resolution of its input, convolutions with
  zero weights, and a downsampling layer that keeps every second row and column.
\<close>

definition hg_ex :: "nat \<Rightarrow> nat \<Rightarrow> nat \<Rightarrow> nat \<Rightarrow> hourglass_t" where
  "hg_ex block_expansion in_features max_features num_blocks =
     \<lparr>out_filters = 1,
      hg_forward = (\<lambda>x. case shape x of
                          [n, c, h, w] \<Rightarrow>
                            if c = in_features then Inr (zeros [n, 1, h, w]) else Inl ValueError
                        | _ \<Rightarrow> Inl ValueError)\<rparr>"

definition down_ex :: "nat \<Rightarrow> real \<Rightarrow> layer" where
  "down_ex num_channels scale x =
     (case shape x of
        [n, c, h, w] \<Rightarrow>
          Inr (tabulate [n, c, (h + 1) div 2, (w + 1) div 2]
                 (\<lambda>idx. case idx of
                     [b, ch, i, j] \<Rightarrow> lookup x [b, ch, 2 * i, 2 * j]
                   | _ \<Rightarrow> 0))
      | _ \<Rightarrow> Inl ValueError)"

definition net_ex :: "bool \<Rightarrow> real \<Rightarrow> network" where
  "net_ex estimate_occlusion_map scale =
     init hg_ex down_ex (zeros [2, 1, 7, 7], zeros [2]) (zeros [1, 1, 7, 7], zeros [1])
          1 1 1 1 1 estimate_occlusion_map scale (1 / 100)"

text \<open>Two 1 x 2 images in one batch, and four copies of the identity grid as motions.\<close>

definition src_c1 :: tensor where
  "src_c1 = \<lparr>shape = [2, 1, 1, 2], data = [1, 2, 3, 4]\<rparr>"

definition sm_c1 :: tensor where
  "sm_c1 = \<lparr>shape = [2, 2, 1, 2, 2],
            data = [-1, -1, 1, -1,  -1, -1, 1, -1,  -1, -1, 1, -1,  -1, -1, 1, -1]\<rparr>"

text \<open>One 2 x 2 image, and keypoint sets with one keypoint and a jacobian each.\<close>

definition src_ex :: tensor where
  "src_ex = \<lparr>shape = [1, 1, 2, 2], data = [1, 2, 3, 4]\<rparr>"

definition val_d :: tensor where
  "val_d = \<lparr>shape = [1, 1, 2], data = [1 / 2, 0]\<rparr>"

definition val_s :: tensor where
  "val_s = \<lparr>shape = [1, 1, 2], data = [0, 1 / 2]\<rparr>"

definition kpd_jac :: dict where
  "kpd_jac = Map.empty(''value'' \<mapsto> val_d,
      ''jacobian'' \<mapsto> \<lparr>shape = [1, 1, 2, 2], data = [2, 0, 0, 2]\<rparr>)"

definition kps_jac :: dict where
  "kps_jac = Map.empty(''value'' \<mapsto> val_s,
      ''jacobian'' \<mapsto> \<lparr>shape = [1, 1, 2, 2], data = [1, 0, 0, 1]\<rparr>)"


text \<open>
  Closed forms of the tensors that \<open>create_sparse_motions\<close> builds, used to state what it
  returns: the value of the identity grid, the grid minus the driving keypoints, the
  jacobian applied to it, and the final stack.
\<close>

definition grid_value :: "nat \<Rightarrow> nat \<Rightarrow> nat \<Rightarrow> nat \<Rightarrow> nat \<Rightarrow> real" where
  "grid_value h w i j d = (if d = 0 then linspace w j else linspace h i)"

definition coordinate_grid_of :: "nat \<Rightarrow> nat \<Rightarrow> nat \<Rightarrow> nat \<Rightarrow> tensor \<Rightarrow> tensor" where
  "coordinate_grid_of bs K h w dv =
     tabulate [bs, K, h, w, 2]
       (\<lambda>idx. grid_value h w (idx ! 2) (idx ! 3) (idx ! 4) - lookup dv [idx ! 0, idx ! 1, idx ! 4])"

definition sparse_motions_of :: "nat \<Rightarrow> nat \<Rightarrow> nat \<Rightarrow> nat \<Rightarrow> tensor \<Rightarrow> tensor \<Rightarrow> tensor" where
  "sparse_motions_of bs K h w cg sv =
     tabulate [bs, K + 1, h, w, 2]
       (\<lambda>idx. if idx ! 1 = 0 then grid_value h w (idx ! 2) (idx ! 3) (idx ! 4)
              else lookup cg [idx ! 0, idx ! 1 - 1, idx ! 2, idx ! 3, idx ! 4]
                   + lookup sv [idx ! 0, idx ! 1 - 1, idx ! 4])"

definition affine_of :: "nat \<Rightarrow> nat \<Rightarrow> nat \<Rightarrow> nat \<Rightarrow> tensor \<Rightarrow> tensor \<Rightarrow> tensor" where
  "affine_of bs K h w jac cg =
     tabulate [bs, K, h, w, 2]
       (\<lambda>idx. lookup jac [idx ! 0, idx ! 1, idx ! 4, 0]
                * lookup cg [idx ! 0, idx ! 1, idx ! 2, idx ! 3, 0]
              + lookup jac [idx ! 0, idx ! 1, idx ! 4, 1]
                * lookup cg [idx ! 0, idx ! 1, idx ! 2, idx ! 3, 1])"

text \<open>A jacobian tensor of shape \<open>(batch, K, 2, 2)\<close> that is the identity matrix at every
  keypoint.\<close>

definition is_identity_jacobian :: "nat \<Rightarrow> nat \<Rightarrow> tensor \<Rightarrow> bool" where
  "is_identity_jacobian bs K j =
     (shape j = [bs, K, 2, 2]
      \<and> (\<forall>b < bs. \<forall>k < K. \<forall>r < 2. \<forall>c < 2. lookup j [b, k, r, c] = (if r = c then 1 else 0)))"

text \<open>Keypoint sets whose jacobian is the identity.\<close>

definition id_jac :: tensor where
  "id_jac = \<lparr>shape = [1, 1, 2, 2], data = [1, 0, 0, 1]\<rparr>"

definition kpd_id :: dict where
  "kpd_id = Map.empty(''value'' \<mapsto> val_d,
      ''jacobian'' \<mapsto> id_jac)"

definition kps_id :: dict where
  "kps_id = Map.empty(''value'' \<mapsto> val_s,
      ''jacobian'' \<mapsto> id_jac)"

section \<open>Indices and tabulated tensors\<close>

lemma bind_err_Inr [simp]: "bind_err (Inr x) f = f x"
  by (simp add: bind_err_def)

lemma bind_err_Inl [simp]: "bind_err (Inl e) f = Inl e"
  by (simp add: bind_err_def)


lemma valid_index_length: "valid_index s idx \<Longrightarrow> length idx = length s"
  by (induction s idx rule: valid_index.induct) simp_all

lemma flat_index_less: "valid_index s idx \<Longrightarrow> flat_index s idx < prod_list s"
proof (induction s idx rule: valid_index.induct)
  case (2 d ds i "is")
  then have "i < d" and f: "flat_index ds is < prod_list ds" by simp_all
  have "i * prod_list ds + flat_index ds is < i * prod_list ds + prod_list ds"
    using f by simp
  also have "\<dots> = Suc i * prod_list ds" by simp
  also have "\<dots> \<le> d * prod_list ds"
    using \<open>i < d\<close> by (intro mult_le_mono1) simp
  finally show ?case by simp
qed simp_all

lemma unflatten_flat_index: "valid_index s idx \<Longrightarrow> unflatten s (flat_index s idx) = idx"
proof (induction s idx rule: valid_index.induct)
  case (2 d ds i "is")
  then have f: "flat_index ds is < prod_list ds" by (simp add: flat_index_less)
  with 2 show ?case by simp
qed simp_all

lemma valid_unflatten: "n < prod_list s \<Longrightarrow> valid_index s (unflatten s n)"
proof (induction s arbitrary: n)
  case (Cons d ds)
  then have pos: "0 < prod_list ds" by (cases "prod_list ds = 0") simp_all
  have "n div prod_list ds < d"
    using Cons.prems pos by (simp add: less_mult_imp_div_less mult.commute)
  moreover have "n mod prod_list ds < prod_list ds" using pos by simp
  ultimately show ?case using Cons.IH by simp
qed simp

lemma flat_index_unflatten: "n < prod_list s \<Longrightarrow> flat_index s (unflatten s n) = n"
proof (induction s arbitrary: n)
  case (Cons d ds)
  then have pos: "0 < prod_list ds" by (cases "prod_list ds = 0") simp_all
  then show ?case using Cons.IH [of "n mod prod_list ds"] by simp
qed simp

lemma shape_tabulate [simp]: "shape (tabulate s f) = s"
  by (simp add: tabulate_def)

lemma wf_tabulate [simp]: "wf_tensor (tabulate s f)"
  by (simp add: tabulate_def wf_tensor_def)

lemma lookup_tabulate: "valid_index s idx \<Longrightarrow> lookup (tabulate s f) idx = f idx"
  by (simp add: lookup_def tabulate_def numel_def flat_index_less unflatten_flat_index)

lemma tensor_eqI:
  assumes "wf_tensor a" "wf_tensor b" "shape a = shape b"
    and "\<And>idx. valid_index (shape a) idx \<Longrightarrow> lookup a idx = lookup b idx"
  shows "a = b"
proof -
  have len: "length (data a) = length (data b)"
    using assms(1-3) by (simp add: wf_tensor_def)
  have "data a ! n = data b ! n" if "n < length (data a)" for n
  proof -
    have n: "n < prod_list (shape a)" using that assms(1) by (simp add: wf_tensor_def numel_def)
    have "lookup a (unflatten (shape a) n) = lookup b (unflatten (shape a) n)"
      by (rule assms(4)) (rule valid_unflatten [OF n])
    then show ?thesis
      using n assms(3) by (simp add: lookup_def flat_index_unflatten)
  qed
  then have "data a = data b" using len by (simp add: list_eq_iff_nth_eq)
  then show ?thesis using assms(3) by simp
qed

section \<open>The deformed source stack\<close>

text \<open>
  C1. Entry \<open>(b, k)\<close> of the deformed source stack should be source image \<open>b\<close> sampled at
  motion field \<open>(b, k)\<close>, for every batch size. With a batch of two images and one
  keypoint the code returns, at entry \<open>(0, 1)\<close>, the second image \<open>[3, 4]\<close> and at entry
  \<open>(1, 0)\<close> the first image \<open>[1, 2]\<close>: \<open>tile\<close> repeats the whole batch along axis 0, so row
  \<open>n\<close> of the replicated source is image \<open>n mod bs\<close>, while row \<open>n\<close> of the motions is
  entry \<open>(n div (K + 1), n mod (K + 1))\<close>.
\<close>

theorem deformed_source_batch_of_two:
  "create_deformed_source_image (net_ex False 1) src_c1 sm_c1
     = Inr \<lparr>shape = [2, 2, 1, 1, 2], data = [1, 2,  3, 4,  1, 2,  3, 4]\<rparr>
   \<and> deformed_source_spec 1 src_c1 sm_c1
     = \<lparr>shape = [2, 2, 1, 1, 2], data = [1, 2,  1, 2,  3, 4,  3, 4]\<rparr>"
  by code_simp

section \<open>Facts about the tensor operations\<close>

lemma if_one_idx [simp]: "i < h \<Longrightarrow> (if h = Suc 0 then 0 else i) = i"
  by auto

lemma if_one_dim [simp]: "(if h = Suc 0 then Suc 0 else h) = (h::nat)"
  by auto

lemma lookup_shape_update:
  "lookup (t\<lparr>shape := s\<rparr>) idx = data t ! flat_index s idx"
  by (simp add: lookup_def)

lemma lookup_reshaped:
  "flat_index s' idx' = flat_index (shape t) idx \<Longrightarrow> lookup (t\<lparr>shape := s'\<rparr>) idx' = lookup t idx"
  by (simp add: lookup_def)

lemma wf_shape_update:
  "wf_tensor t \<Longrightarrow> numel s = numel (shape t) \<Longrightarrow> wf_tensor (t\<lparr>shape := s\<rparr>)"
  by (simp add: wf_tensor_def)

lemma tabulate_cong:
  "(\<And>idx. valid_index s idx \<Longrightarrow> f idx = g idx) \<Longrightarrow> tabulate s f = tabulate s g"
  by (simp add: tabulate_def numel_def valid_unflatten)

lemma tabulate_lookup: "wf_tensor t \<Longrightarrow> tabulate (shape t) (lookup t) = t"
  by (rule tensor_eqI) (simp_all add: lookup_tabulate)


lemma reshape_identity_grid:
  assumes "shape g = [h, w, 2]" "0 < h" "0 < w"
  shows "reshape g [1, 1, int h, int w, 2] = Inr (g\<lparr>shape := [1, 1, h, w, 2]\<rparr>)"
  using assms by (simp add: reshape_def numel_def nat_mult_distrib)

lemma tile_5:
  "shape t = [a, b, c, d, e] \<Longrightarrow>
   tile t [ra, rb, rc, rd, re]
     = Inr (tabulate [a * ra, b * rb, c * rc, d * rd, e * re]
              (\<lambda>idx. lookup t (map2 (\<lambda>i d. i mod d) idx [a, b, c, d, e])))"
  by (simp add: tile_def pad_ones_def lookup_def Let_def)


lemma length_Suc4: "length s = Suc (Suc (Suc (Suc 0))) \<Longrightarrow> \<exists>a b c d. s = [a, b, c, d]"
  by (auto simp: length_Suc_conv)


section \<open>The sparse motions\<close>




lemma getitem_Some [simp]: "d k = Some v \<Longrightarrow> getitem d k = Inr v"
  by (simp add: getitem_def)

lemma getitem_None [simp]: "d k = None \<Longrightarrow> getitem d k = Inl KeyError"
  by (simp add: getitem_def)

lemma kp2gaussian_ok:
  assumes "kp ''value'' = Some v" "shape v = [bs, K, 2]" "0 < h" "0 < w" "var \<noteq> 0"
  shows "\<exists>g. kp2gaussian kp (h, w) var = Inr g \<and> shape g = [bs, K, h, w]"
  using assms by (simp add: kp2gaussian_def make_coordinate_grid_def)

lemma broadcast_shape_same4: "broadcast_shape [a, b, c, d] [a, b, c, d] = Some [a, b, c, d]"
  by (simp add: broadcast_shape_def pad_ones_def)

lemma valid_index3E:
  assumes "valid_index [a, b, c] idx"
  obtains i j k where "idx = [i, j, k]" "i < a" "j < b" "k < c"
proof -
  from valid_index_length [OF assms] obtain i j k where "idx = [i, j, k]"
    by (auto simp: length_Suc_conv)
  with assms that show thesis by simp
qed

lemma valid_index4E:
  assumes "valid_index [a, b, c, d] idx"
  obtains i j k l where "idx = [i, j, k, l]" "i < a" "j < b" "k < c" "l < d"
proof -
  from valid_index_length [OF assms] obtain i j k l where "idx = [i, j, k, l]"
    by (auto simp: length_Suc_conv)
  with assms that show thesis by simp
qed

lemma valid_index5E:
  assumes "valid_index [a, b, c, d, e] idx"
  obtains i j k l m where "idx = [i, j, k, l, m]" "i < a" "j < b" "k < c" "l < d" "m < e"
proof -
  from valid_index_length [OF assms] obtain i j k l m where "idx = [i, j, k, l, m]"
    by (auto simp: length_Suc_conv)
  with assms that show thesis by simp
qed

lemma bidx_same4:
  "valid_index [a, b, c, d] idx \<Longrightarrow> bidx [a, b, c, d] idx = idx"
  by (erule valid_index4E) (simp add: bidx_def)

lemma sub_same4:
  assumes "shape x = [a, b, c, d]" "shape y = [a, b, c, d]"
  shows "sub_t x y = Inr (tabulate [a, b, c, d] (\<lambda>idx. lookup x idx - lookup y idx))"
  using assms
  by (simp add: sub_t_def binop_def broadcast_shape_same4 bidx_same4 cong: tabulate_cong)

lemma zeros_lookup: "valid_index s idx \<Longrightarrow> lookup (zeros s) idx = 0"
  by (simp add: zeros_def lookup_tabulate)

lemma concat_axis1_4:
  assumes "shape x = [a, m, c, d]" "shape y = [a, n, c, d]"
  shows "concat_t x y 1
     = Inr (tabulate [a, m + n, c, d]
              (\<lambda>idx. if idx ! 1 < m then lookup x idx else lookup y (idx[1 := idx ! 1 - m])))"
  using assms by (simp add: concat_t_def cong del: if_weak_cong)

section \<open>The heatmap representation\<close>

lemma create_heatmap_representations_run:
  assumes dv: "kp_driving ''value'' = Some dv" "shape dv = [bs, K, 2]"
    and sv: "kp_source ''value'' = Some sv" "shape sv = [bs, K, 2]"
    and src: "shape source_image = [n, c, h, w]"
    and pos: "0 < h" "0 < w" "kp_variance net \<noteq> 0"
  shows "\<exists>gd gs hm.
           kp2gaussian kp_driving (h, w) (kp_variance net) = Inr gd
         \<and> kp2gaussian kp_source (h, w) (kp_variance net) = Inr gs
         \<and> create_heatmap_representations net source_image kp_driving kp_source = Inr hm
         \<and> shape hm = [bs, K + 1, 1, h, w]
         \<and> (\<forall>b < bs. \<forall>i < h. \<forall>j < w.
               lookup hm [b, 0, 0, i, j] = 0
             \<and> (\<forall>k. 1 \<le> k \<and> k \<le> K \<longrightarrow>
                    lookup hm [b, k, 0, i, j]
                      = lookup gd [b, k - 1, i, j] - lookup gs [b, k - 1, i, j]))"
proof -
  from kp2gaussian_ok [where kp = kp_driving, OF dv pos] obtain gd where
    gd: "kp2gaussian kp_driving (h, w) (kp_variance net) = Inr gd" "shape gd = [bs, K, h, w]"
    by blast
  from kp2gaussian_ok [where kp = kp_source, OF sv pos] obtain gs where
    gs: "kp2gaussian kp_source (h, w) (kp_variance net) = Inr gs" "shape gs = [bs, K, h, w]"
    by blast
  define heatmap where "heatmap = tabulate [bs, K, h, w] (\<lambda>idx. lookup gd idx - lookup gs idx)"
  define heatmap1 where "heatmap1 = tabulate [bs, 1 + K, h, w]
     (\<lambda>idx. if idx ! 1 < 1 then lookup (zeros [bs, 1, h, w]) idx
            else lookup heatmap (idx[1 := idx ! 1 - 1]))"
  define hm where "hm = heatmap1\<lparr>shape := [bs, 1 + K, 1, h, w]\<rparr>"
  have sub: "sub_t gd gs = Inr heatmap"
    unfolding heatmap_def by (rule sub_same4 [OF gd(2) gs(2)])
  have cat: "concat_t (zeros [bs, 1, h, w]) heatmap 1 = Inr heatmap1"
    unfolding heatmap1_def by (rule concat_axis1_4) (simp_all add: zeros_def heatmap_def)
  have uns: "unsqueeze heatmap1 2 = Inr hm"
    by (simp add: unsqueeze_def hm_def heatmap1_def)
  have run: "create_heatmap_representations net source_image kp_driving kp_source = Inr hm"
    using sub cat uns
    by (simp add: create_heatmap_representations_def src gd(1) gs(1) heatmap_def)
  have look: "lookup hm [b, k, 0, i, j] = lookup heatmap1 [b, k, i, j]" for b k i j
    unfolding hm_def by (rule lookup_reshaped) (simp add: heatmap1_def)
  have "lookup hm [b, 0, 0, i, j] = 0" if "b < bs" "i < h" "j < w" for b i j
    using that by (simp add: look heatmap1_def lookup_tabulate zeros_lookup)
  moreover have "lookup hm [b, k, 0, i, j] = lookup gd [b, k - 1, i, j] - lookup gs [b, k - 1, i, j]"
    if "b < bs" "i < h" "j < w" "1 \<le> k" "k \<le> K" for b i j k
    using that by (simp add: look heatmap1_def heatmap_def lookup_tabulate)
  ultimately show ?thesis
    using gd(1) gs(1) run by (auto simp: hm_def)
qed

text \<open>
  C9. For keypoint values of shape \<open>(batch, K, 2)\<close>, an image of positive height and
  width and a non-zero variance, \<open>create_heatmap_representations\<close> returns a tensor of
  shape \<open>(batch, K + 1, 1, H, W)\<close> whose channel 0 is zero and whose channel \<open>k\<close>, for
  \<open>k\<close> from 1 to \<open>K\<close>, is the heatmap of driving keypoint \<open>k\<close> minus the heatmap of
  source keypoint \<open>k\<close>, the heatmaps being what \<open>kp2gaussian\<close> returns.
\<close>

theorem heatmap_representation:
  assumes dv: "kp_driving ''value'' = Some dv" "shape dv = [bs, K, 2]"
    and sv: "kp_source ''value'' = Some sv" "shape sv = [bs, K, 2]"
    and src: "shape source_image = [n, c, h, w]"
    and pos: "0 < h" "0 < w" "kp_variance net \<noteq> 0"
  shows "\<exists>gd gs hm.
           kp2gaussian kp_driving (h, w) (kp_variance net) = Inr gd
         \<and> kp2gaussian kp_source (h, w) (kp_variance net) = Inr gs
         \<and> create_heatmap_representations net source_image kp_driving kp_source = Inr hm
         \<and> shape hm = [bs, K + 1, 1, h, w]
         \<and> (\<forall>b < bs. \<forall>i < h. \<forall>j < w.
               lookup hm [b, 0, 0, i, j] = 0
             \<and> (\<forall>k. 1 \<le> k \<and> k \<le> K \<longrightarrow>
                    lookup hm [b, k, 0, i, j]
                      = lookup gd [b, k - 1, i, j] - lookup gs [b, k - 1, i, j]))"
  using assms by (rule create_heatmap_representations_run)

lemma reshape_kp_value:
  assumes "shape v = [bs, K, 2]" "0 < bs" "0 < K"
  shows "reshape v [int bs, int K, 1, 1, 2] = Inr (v\<lparr>shape := [bs, K, 1, 1, 2]\<rparr>)"
  using assms by (simp add: reshape_def numel_def nat_mult_distrib)

lemma broadcast_grid_kp:
  "broadcast_shape [1, 1, h, w, 2] [bs, K, 1, 1, 2] = Some [bs, K, h, w, 2]"
  by (simp add: broadcast_shape_def pad_ones_def)

lemma broadcast_field_kp:
  "broadcast_shape [bs, K, h, w, 2] [bs, K, 1, 1, 2] = Some [bs, K, h, w, 2]"
  by (simp add: broadcast_shape_def pad_ones_def)

lemma binop_grid_kp:
  assumes "shape x = [1, 1, h, w, 2]" "shape y = [bs, K, 1, 1, 2]"
  shows "binop f x y
     = Inr (tabulate [bs, K, h, w, 2]
              (\<lambda>idx. f (lookup x [0, 0, idx ! 2, idx ! 3, idx ! 4])
                        (lookup y [idx ! 0, idx ! 1, 0, 0, idx ! 4])))"
proof -
  have "tabulate [bs, K, h, w, 2]
          (\<lambda>idx. f (lookup x (bidx [1, 1, h, w, 2] idx)) (lookup y (bidx [bs, K, 1, 1, 2] idx)))
        = tabulate [bs, K, h, w, 2]
          (\<lambda>idx. f (lookup x [0, 0, idx ! 2, idx ! 3, idx ! 4])
                    (lookup y [idx ! 0, idx ! 1, 0, 0, idx ! 4]))"
    by (rule tabulate_cong, erule valid_index5E) (simp add: bidx_def)
  then show ?thesis
    unfolding binop_def assms broadcast_grid_kp option.case by simp
qed

lemma binop_field_kp:
  assumes "shape x = [bs, K, h, w, 2]" "shape y = [bs, K, 1, 1, 2]"
  shows "binop f x y
     = Inr (tabulate [bs, K, h, w, 2]
              (\<lambda>idx. f (lookup x idx) (lookup y [idx ! 0, idx ! 1, 0, 0, idx ! 4])))"
proof -
  have "tabulate [bs, K, h, w, 2]
          (\<lambda>idx. f (lookup x (bidx [bs, K, h, w, 2] idx)) (lookup y (bidx [bs, K, 1, 1, 2] idx)))
        = tabulate [bs, K, h, w, 2]
          (\<lambda>idx. f (lookup x idx) (lookup y [idx ! 0, idx ! 1, 0, 0, idx ! 4]))"
    by (rule tabulate_cong, erule valid_index5E) (simp add: bidx_def)
  then show ?thesis
    unfolding binop_def assms broadcast_field_kp option.case by simp
qed

lemma concat_axis1_5:
  assumes "shape x = [a, m, c, d, e]" "shape y = [a, n, c, d, e]"
  shows "concat_t x y 1
     = Inr (tabulate [a, m + n, c, d, e]
              (\<lambda>idx. if idx ! 1 < m then lookup x idx else lookup y (idx[1 := idx ! 1 - m])))"
  using assms by (simp add: concat_t_def cong del: if_weak_cong)

lemma make_coordinate_grid_ok:
  assumes "0 < h" "0 < w"
  shows "\<exists>g. make_coordinate_grid (h, w) = Inr g \<and> shape g = [h, w, 2]
           \<and> (\<forall>i < h. \<forall>j < w. \<forall>d < 2. lookup g [i, j, d] = grid_value h w i j d)"
  using assms by (simp add: make_coordinate_grid_def lookup_tabulate grid_value_def)

lemma create_sparse_motions_run:
  assumes src: "shape source_image = [bs, c, h, w]"
    and pos: "0 < bs" "0 < K" "0 < h" "0 < w"
    and K: "num_kp net = K"
    and dv: "kp_driving ''value'' = Some dv" "shape dv = [bs, K, 2]"
    and sv: "kp_source ''value'' = Some sv" "shape sv = [bs, K, 2]"
    and branch: "(if kp_driving ''jacobian'' \<noteq> None
                  then jacobian_branch h w kp_driving kp_source (coordinate_grid_of bs K h w dv)
                  else Inr (coordinate_grid_of bs K h w dv)) = Inr cg"
    and cg: "shape cg = [bs, K, h, w, 2]"
  shows "create_sparse_motions net source_image kp_driving kp_source
           = Inr (sparse_motions_of bs K h w cg sv)"
proof -
  from make_coordinate_grid_ok [OF pos(3,4)] obtain grid where
    g: "make_coordinate_grid (h, w) = Inr grid" and gs: "shape grid = [h, w, 2]"
    and gv: "\<And>i j d. i < h \<Longrightarrow> j < w \<Longrightarrow> d < 2 \<Longrightarrow> lookup grid [i, j, d] = grid_value h w i j d"
    by blast
  define ig where "ig = grid\<lparr>shape := [1, 1, h, w, 2]\<rparr>"
  have r1: "reshape grid [1, 1, int h, int w, 2] = Inr ig"
    unfolding ig_def by (rule reshape_identity_grid [OF gs pos(3,4)])
  have igs: "shape ig = [1, 1, h, w, 2]" by (simp add: ig_def)
  have igv: "lookup ig [0, 0, i, j, d] = grid_value h w i j d" if "i < h" "j < w" "d < 2" for i j d
  proof -
    have "lookup ig [0, 0, i, j, d] = lookup grid [i, j, d]"
      unfolding ig_def by (rule lookup_reshaped) (simp add: gs)
    then show ?thesis using that by (simp add: gv)
  qed
  define dv1 where "dv1 = dv\<lparr>shape := [bs, K, 1, 1, 2]\<rparr>"
  define sv1 where "sv1 = sv\<lparr>shape := [bs, K, 1, 1, 2]\<rparr>"
  have r2: "reshape dv [int bs, int K, 1, 1, 2] = Inr dv1"
    unfolding dv1_def by (rule reshape_kp_value [OF dv(2) pos(1,2)])
  have r3: "reshape sv [int bs, int K, 1, 1, 2] = Inr sv1"
    unfolding sv1_def by (rule reshape_kp_value [OF sv(2) pos(1,2)])
  have dv1v: "lookup dv1 [b, k, 0, 0, d] = lookup dv [b, k, d]" for b k d
    unfolding dv1_def by (rule lookup_reshaped) (simp add: dv(2))
  have sv1v: "lookup sv1 [b, k, 0, 0, d] = lookup sv [b, k, d]" for b k d
    unfolding sv1_def by (rule lookup_reshaped) (simp add: sv(2))
  have "sub_t ig dv1 = Inr (tabulate [bs, K, h, w, 2]
              (\<lambda>idx. lookup ig [0, 0, idx ! 2, idx ! 3, idx ! 4]
                     - lookup dv1 [idx ! 0, idx ! 1, 0, 0, idx ! 4]))"
    unfolding sub_t_def by (rule binop_grid_kp) (simp_all add: igs dv1_def)
  also have "tabulate [bs, K, h, w, 2]
              (\<lambda>idx. lookup ig [0, 0, idx ! 2, idx ! 3, idx ! 4]
                     - lookup dv1 [idx ! 0, idx ! 1, 0, 0, idx ! 4])
            = coordinate_grid_of bs K h w dv"
    unfolding coordinate_grid_of_def
    by (rule tabulate_cong, erule valid_index5E) (simp add: igv dv1v)
  finally have sub: "sub_t ig dv1 = Inr (coordinate_grid_of bs K h w dv)" .
  define dts where "dts = tabulate [bs, K, h, w, 2]
              (\<lambda>idx. lookup cg idx + lookup sv1 [idx ! 0, idx ! 1, 0, 0, idx ! 4])"
  have add: "add_t cg sv1 = Inr dts"
    unfolding add_t_def dts_def by (rule binop_field_kp) (simp_all add: cg sv1_def)
  define ig1 where "ig1 = tabulate [1 * bs, 1 * 1, h * 1, w * 1, 2 * 1]
              (\<lambda>idx. lookup ig (map2 (\<lambda>i d. i mod d) idx [1, 1, h, w, 2]))"
  have til: "tile ig [bs, 1, 1, 1, 1] = Inr ig1"
    unfolding ig1_def by (rule tile_5 [OF igs])
  have ig1s: "shape ig1 = [bs, 1, h, w, 2]" by (simp add: ig1_def)
  define sm where "sm = tabulate [bs, 1 + K, h, w, 2]
      (\<lambda>idx. if idx ! 1 < 1 then lookup ig1 idx else lookup dts (idx[1 := idx ! 1 - 1]))"
  have cat: "concat_t ig1 dts 1 = Inr sm"
    unfolding sm_def by (rule concat_axis1_5 [OF ig1s]) (simp add: dts_def)
  have "sm = sparse_motions_of bs K h w cg sv"
    unfolding sm_def sparse_motions_of_def
    by (simp, rule tabulate_cong, erule valid_index5E)
       (auto simp: ig1_def dts_def lookup_tabulate igv sv1v)
  moreover have "create_sparse_motions net source_image kp_driving kp_source = Inr sm"
    using branch g r1 r2 r3 sub add til cat
    by (simp add: create_sparse_motions_def src dv(1) sv(1) K)
  ultimately show ?thesis by simp
qed

lemma merge_index_less: "b < bs \<Longrightarrow> k < K \<Longrightarrow> b * K + k < bs * (K::nat)"
proof -
  assume "b < bs" "k < K"
  then have "b * K + k < Suc b * K" by simp
  also have "\<dots> \<le> bs * K" using \<open>b < bs\<close> by (intro mult_le_mono1) simp
  finally show ?thesis .
qed

lemma div_mod_multiple: "0 < m \<Longrightarrow> (a * m) mod m = 0 \<and> (a * m) div m = (a::nat)"
  by simp

lemma reshape_infer_first:
  assumes "numel (shape t) = a * prod_list ds" "0 < prod_list ds" "\<forall>d \<in> set ds. 0 < d"
  shows "reshape t (-1 # map int ds) = Inr (t\<lparr>shape := a # ds\<rparr>)"
proof -
  have rd: "reshape_dims s i (map int ds) = Inr (map int ds)" for s i
    using assms(3) by (induction ds arbitrary: i) simp_all
  have f1: "filter (\<lambda>d. d \<noteq> - 1) (map int ds) = map int ds"
    by (induction ds) simp_all
  have f2: "filter (\<lambda>d. d = - 1) (map int ds) = []"
    by (induction ds) simp_all
  have p: "nat (prod_list (map int ds)) = prod_list ds"
    by (induction ds) (simp_all add: nat_mult_distrib)
  have m: "map (\<lambda>d. if d = - 1 then a else nat d) (map int ds) = ds"
    by (induction ds) simp_all
  show ?thesis
    using assms(1,2) by (simp add: reshape_def rd f1 f2 p m o_def)
qed

lemma reshape_all_positive:
  assumes "numel (shape t) = prod_list ds" "\<forall>d \<in> set ds. 0 < d"
  shows "reshape t (map int ds) = Inr (t\<lparr>shape := ds\<rparr>)"
proof -
  have rd: "reshape_dims s i (map int ds) = Inr (map int ds)" for s i
    using assms(2) by (induction ds arbitrary: i) simp_all
  have f1: "filter (\<lambda>d. d \<noteq> - 1) (map int ds) = map int ds"
    by (induction ds) simp_all
  have f2: "filter (\<lambda>d. d = - 1) (map int ds) = []"
    by (induction ds) simp_all
  have p: "nat (prod_list (map int ds)) = prod_list ds"
    by (induction ds) (simp_all add: nat_mult_distrib)
  show ?thesis
    using assms(1) by (simp add: reshape_def rd f1 f2 p o_def)
qed

lemma broadcast_shape_same: "broadcast_shape s s = Some s"
proof -
  have "list_all2 (\<lambda>x y. x = y \<or> x = 1 \<or> y = 1) s s" by (simp add: list_all2_same)
  moreover have "map2 (\<lambda>x y. if x = 1 then y else x) s s = s"
    by (induction s) simp_all
  ultimately show ?thesis by (simp add: broadcast_shape_def pad_ones_def)
qed

lemma bidx_same: "valid_index s idx \<Longrightarrow> bidx s idx = idx"
proof -
  assume v: "valid_index s idx"
  then have "map2 (\<lambda>i d. if d = 1 then 0 else i) idx s = idx"
    by (induction s idx rule: valid_index.induct) auto
  then show ?thesis using valid_index_length [OF v] by (simp add: bidx_def)
qed

lemma matmul_4:
  assumes "shape x = [a, b, m, k]" "shape y = [a, b, k, n]"
  shows "matmul x y
     = Inr (tabulate [a, b, m, n]
              (\<lambda>idx. sum_list (map (\<lambda>l. lookup x [idx ! 0, idx ! 1, idx ! 2, l]
                                        * lookup y [idx ! 0, idx ! 1, l, idx ! 3]) [0..<k])))"
proof -
  have v: "bidx [a, b] (take 2 idx) = [idx ! 0, idx ! 1]" if "valid_index [a, b, m, n] idx" for idx
    using that by (elim valid_index4E) (simp add: bidx_def)
  have "tabulate [a, b, m, n]
          (\<lambda>idx. sum_list (map (\<lambda>l. data x ! flat_index [a, b, m, k] (bidx [a, b] (take 2 idx) @ [idx ! 2, l])
                               * data y ! flat_index [a, b, k, n] (bidx [a, b] (take 2 idx) @ [l, idx ! 3]))
                          [0..<k]))
      = tabulate [a, b, m, n]
          (\<lambda>idx. sum_list (map (\<lambda>l. lookup x [idx ! 0, idx ! 1, idx ! 2, l]
                                        * lookup y [idx ! 0, idx ! 1, l, idx ! 3]) [0..<k]))"
    by (rule tabulate_cong) (simp add: v lookup_def assms)
  then show ?thesis
    by (simp add: matmul_def assms broadcast_shape_same Let_def tabulate_def numeral_2_eq_2 numeral_3_eq_3)
qed

lemma matmul_5:
  assumes "shape x = [a, b, c, m, k]" "shape y = [a, b, c, k, n]"
  shows "matmul x y
     = Inr (tabulate [a, b, c, m, n]
              (\<lambda>idx. sum_list (map (\<lambda>l. lookup x [idx ! 0, idx ! 1, idx ! 2, idx ! 3, l]
                                        * lookup y [idx ! 0, idx ! 1, idx ! 2, l, idx ! 4]) [0..<k])))"
proof -
  have v: "bidx [a, b, c] (take 3 idx) = [idx ! 0, idx ! 1, idx ! 2]"
    if "valid_index [a, b, c, m, n] idx" for idx
    using that by (elim valid_index5E) (simp add: bidx_def)
  have "tabulate [a, b, c, m, n]
          (\<lambda>idx. sum_list (map (\<lambda>l. data x ! flat_index [a, b, c, m, k] (bidx [a, b, c] (take 3 idx) @ [idx ! 3, l])
                               * data y ! flat_index [a, b, c, k, n] (bidx [a, b, c] (take 3 idx) @ [l, idx ! 4]))
                          [0..<k]))
      = tabulate [a, b, c, m, n]
          (\<lambda>idx. sum_list (map (\<lambda>l. lookup x [idx ! 0, idx ! 1, idx ! 2, idx ! 3, l]
                                        * lookup y [idx ! 0, idx ! 1, idx ! 2, l, idx ! 4]) [0..<k]))"
    by (rule tabulate_cong) (simp add: v lookup_def assms)
  then show ?thesis
    by (simp add: matmul_def assms broadcast_shape_same Let_def tabulate_def numeral_2_eq_2 numeral_3_eq_3)
qed

lemma sum_list_upt_2: "sum_list (map f [0..<2]) = f 0 + f (1::nat)"
  by (simp add: numeral_2_eq_2)

lemma jacobian_branch_run:
  assumes pos: "0 < bs" "0 < K" "0 < h" "0 < w"
    and js: "kp_source ''jacobian'' = Some js"
    and jd: "kp_driving ''jacobian'' = Some jd"
    and inv: "inverse_t jd = Inr jinv"
    and mm: "matmul js jinv = Inr jac"
    and jac: "shape jac = [bs, K, 2, 2]"
    and cg: "shape cg = [bs, K, h, w, 2]" "wf_tensor cg"
  shows "jacobian_branch h w kp_driving kp_source cg = Inr (affine_of bs K h w jac cg)"
proof -
  define j1 where "j1 = jac\<lparr>shape := [bs * K, 2, 2]\<rparr>"
  define j2 where "j2 = jac\<lparr>shape := [bs * K, 1, 2, 2]\<rparr>"
  define j3 where "j3 = jac\<lparr>shape := [bs * K, 1, 1, 2, 2]\<rparr>"
  define j4 where "j4 = tabulate [bs * K * 1, 1 * h, 1 * w, 2 * 1, 2 * 1]
              (\<lambda>idx. lookup j3 (map2 (\<lambda>i d. i mod d) idx [bs * K, 1, 1, 2, 2]))"
  define c1 where "c1 = cg\<lparr>shape := [bs * K, h, w, 2]\<rparr>"
  define c2 where "c2 = cg\<lparr>shape := [bs * K, h, w, 2, 1]\<rparr>"
  define c3 where "c3 = tabulate [bs * K, h, w, 2, 1]
              (\<lambda>idx. sum_list (map (\<lambda>l. lookup j4 [idx ! 0, idx ! 1, idx ! 2, idx ! 3, l]
                                        * lookup c2 [idx ! 0, idx ! 1, idx ! 2, l, idx ! 4]) [0..<2]))"
  define c4 where "c4 = c3\<lparr>shape := [bs * K, h, w, 2]\<rparr>"
  define c5 where "c5 = c3\<lparr>shape := [bs, K, h, w, 2]\<rparr>"
  have r1: "reshape jac (-1 # map int [2, 2]) = Inr j1"
    unfolding j1_def by (rule reshape_infer_first) (simp_all add: jac numel_def)
  have u1: "unsqueeze j1 (-3) = Inr j2" by (simp add: unsqueeze_def j1_def j2_def)
  have u2: "unsqueeze j2 (-3) = Inr j3" by (simp add: unsqueeze_def j2_def j3_def)
  have t1: "tile j3 [1, h, w, 1, 1] = Inr j4"
    unfolding j4_def by (rule tile_5) (simp add: j3_def)
  have r2: "reshape cg (-1 # map int [h, w, 2]) = Inr c1"
    unfolding c1_def by (rule reshape_infer_first) (simp_all add: cg numel_def pos)
  have u3: "unsqueeze c1 (-1) = Inr c2" by (simp add: unsqueeze_def c1_def c2_def)
  have m2: "matmul j4 c2 = Inr c3"
    unfolding c3_def by (rule matmul_5) (simp_all add: j4_def c2_def)
  have s1: "squeeze c3 (-1) = Inr c4" by (simp add: squeeze_def c3_def c4_def)
  have r3: "reshape c4 (map int [bs, K, h, w, 2]) = Inr c5"
  proof -
    have "reshape c4 (map int [bs, K, h, w, 2]) = Inr (c4\<lparr>shape := [bs, K, h, w, 2]\<rparr>)"
      by (rule reshape_all_positive) (simp_all add: c4_def numel_def pos)
    then show ?thesis by (simp add: c4_def c5_def)
  qed
  have run: "jacobian_branch h w kp_driving kp_source cg = Inr c5"
    using r1 u1 u2 t1 r2 u3 m2 s1 r3
    by (simp add: jacobian_branch_def js jd inv mm jac cg c4_def)
  have "c5 = affine_of bs K h w jac cg"
  proof (rule tensor_eqI)
    show "wf_tensor c5" by (simp add: c5_def c3_def wf_tensor_def tabulate_def numel_def)
    show "wf_tensor (affine_of bs K h w jac cg)" by (simp add: affine_of_def)
    show "shape c5 = shape (affine_of bs K h w jac cg)" by (simp add: c5_def affine_of_def)
    fix idx assume "valid_index (shape c5) idx"
    then have "valid_index [bs, K, h, w, 2] idx" by (simp add: c5_def)
    then obtain b k i j d where idx: "idx = [b, k, i, j, d]"
      and lt: "b < bs" "k < K" "i < h" "j < w" "d < 2"
      by (rule valid_index5E)
    have m: "b * K + k < bs * K" by (rule merge_index_less [OF lt(1,2)])
    have "lookup c5 idx = lookup c3 [b * K + k, i, j, d, 0]"
      unfolding c5_def idx by (rule lookup_reshaped) (simp add: c3_def algebra_simps)
    also have "\<dots> = lookup j4 [b * K + k, i, j, d, 0] * lookup c2 [b * K + k, i, j, 0, 0]
                   + lookup j4 [b * K + k, i, j, d, 1] * lookup c2 [b * K + k, i, j, 1, 0]"
      using m lt by (simp add: c3_def lookup_tabulate sum_list_upt_2)
    also have "lookup j4 [b * K + k, i, j, d, 0] = lookup jac [b, k, d, 0]"
    proof -
      have "lookup j4 [b * K + k, i, j, d, 0] = lookup j3 [b * K + k, 0, 0, d, 0]"
        using m lt by (simp add: j4_def lookup_tabulate)
      also have "\<dots> = lookup jac [b, k, d, 0]"
        unfolding j3_def by (rule lookup_reshaped) (simp add: jac algebra_simps)
      finally show ?thesis .
    qed
    also have "lookup j4 [b * K + k, i, j, d, 1] = lookup jac [b, k, d, 1]"
    proof -
      have "lookup j4 [b * K + k, i, j, d, 1] = lookup j3 [b * K + k, 0, 0, d, 1]"
        using m lt by (simp add: j4_def lookup_tabulate)
      also have "\<dots> = lookup jac [b, k, d, 1]"
        unfolding j3_def by (rule lookup_reshaped) (simp add: jac algebra_simps)
      finally show ?thesis .
    qed
    also have "lookup c2 [b * K + k, i, j, 0, 0] = lookup cg [b, k, i, j, 0]"
      unfolding c2_def by (rule lookup_reshaped) (simp add: cg algebra_simps)
    also have "lookup c2 [b * K + k, i, j, 1, 0] = lookup cg [b, k, i, j, 1]"
      unfolding c2_def by (rule lookup_reshaped) (simp add: cg algebra_simps)
    finally show "lookup c5 idx = lookup (affine_of bs K h w jac cg) idx"
      using lt by (simp add: affine_of_def idx lookup_tabulate)
  qed
  with run show ?thesis by simp
qed

lemma unmerge_index:
  assumes "n < bs * K"
  obtains b k where "n = b * K + k" "b < bs" "k < (K::nat)"
proof -
  from assms have K: "0 < K" by (cases K) simp_all
  have "n = (n div K) * K + n mod K" by simp
  moreover have "n div K < bs" using assms K by (simp add: less_mult_imp_div_less)
  moreover have "n mod K < K" using K by simp
  ultimately show thesis using that by blast
qed

lemma jacobian_entries:
  assumes "shape j = [bs, K, 2, 2]"
  shows "data j ! (4 * (b * K + k)) = lookup j [b, k, 0, 0]"
    and "data j ! (4 * (b * K + k) + 1) = lookup j [b, k, 0, 1]"
    and "data j ! (4 * (b * K + k) + 2) = lookup j [b, k, 1, 0]"
    and "data j ! (4 * (b * K + k) + 3) = lookup j [b, k, 1, 1]"
  unfolding lookup_def assms
  by (rule arg_cong [where f = "(!) (data j)"], simp add: ring_distribs)+

lemma det2_identity:
  assumes "is_identity_jacobian bs K j" "n < bs * K"
  shows "det2 j n = 1"
proof -
  from assms(2) obtain b k where n: "n = b * K + k" and lt: "b < bs" "k < K"
    by (rule unmerge_index)
  from assms(1) have s: "shape j = [bs, K, 2, 2]"
    and v: "\<And>r c. r < 2 \<Longrightarrow> c < 2 \<Longrightarrow> lookup j [b, k, r, c] = (if r = c then 1 else 0)"
    using lt by (simp_all add: is_identity_jacobian_def)
  show ?thesis
    unfolding det2_def n jacobian_entries [OF s] by (simp add: v)
qed

lemma inverse_t_run:
  assumes s: "shape j = [bs, K, 2, 2]" and ns: "\<forall>n < bs * K. det2 j n \<noteq> 0"
  shows "inverse_t j
     = Inr (tabulate [bs, K, 2, 2]
         (\<lambda>idx. (if idx ! 2 = 0 \<and> idx ! 3 = 0 then lookup j [idx ! 0, idx ! 1, 1, 1]
                  else if idx ! 2 = 0 \<and> idx ! 3 = 1 then - lookup j [idx ! 0, idx ! 1, 0, 1]
                  else if idx ! 2 = 1 \<and> idx ! 3 = 0 then - lookup j [idx ! 0, idx ! 1, 1, 0]
                  else lookup j [idx ! 0, idx ! 1, 0, 0]) / det2 j (idx ! 0 * K + idx ! 1)))"
proof -
  have "tabulate [bs, K, 2, 2]
          (\<lambda>idx. let b = flat_index (take 2 [bs, K, 2, 2]) (take 2 idx);
                     m00 = data j ! (4 * b); m01 = data j ! (4 * b + 1);
                     m10 = data j ! (4 * b + 2); m11 = data j ! (4 * b + 3);
                     det = m00 * m11 - m01 * m10;
                     i = idx ! 2; jj = idx ! (2 + 1)
                 in (if i = 0 \<and> jj = 0 then m11
                     else if i = 0 \<and> jj = 1 then - m01
                     else if i = 1 \<and> jj = 0 then - m10
                     else m00) / det)
     = tabulate [bs, K, 2, 2]
         (\<lambda>idx. (if idx ! 2 = 0 \<and> idx ! 3 = 0 then lookup j [idx ! 0, idx ! 1, 1, 1]
                  else if idx ! 2 = 0 \<and> idx ! 3 = 1 then - lookup j [idx ! 0, idx ! 1, 0, 1]
                  else if idx ! 2 = 1 \<and> idx ! 3 = 0 then - lookup j [idx ! 0, idx ! 1, 1, 0]
                  else lookup j [idx ! 0, idx ! 1, 0, 0]) / det2 j (idx ! 0 * K + idx ! 1))"
  proof (rule tabulate_cong, erule valid_index4E)
    fix idx :: "nat list" and b k r c :: nat
    assume idx: "idx = [b, k, r, c]"
    have f: "flat_index (take 2 [bs, K, 2, 2]) (take 2 idx) = b * K + k"
      by (simp add: idx)
    show "(let b = flat_index (take 2 [bs, K, 2, 2]) (take 2 idx);
                     m00 = data j ! (4 * b); m01 = data j ! (4 * b + 1);
                     m10 = data j ! (4 * b + 2); m11 = data j ! (4 * b + 3);
                     det = m00 * m11 - m01 * m10;
                     i = idx ! 2; jj = idx ! (2 + 1)
                 in (if i = 0 \<and> jj = 0 then m11
                     else if i = 0 \<and> jj = 1 then - m01
                     else if i = 1 \<and> jj = 0 then - m10
                     else m00) / det)
       = (if idx ! 2 = 0 \<and> idx ! 3 = 0 then lookup j [idx ! 0, idx ! 1, 1, 1]
                  else if idx ! 2 = 0 \<and> idx ! 3 = 1 then - lookup j [idx ! 0, idx ! 1, 0, 1]
                  else if idx ! 2 = 1 \<and> idx ! 3 = 0 then - lookup j [idx ! 0, idx ! 1, 1, 0]
                  else lookup j [idx ! 0, idx ! 1, 0, 0]) / det2 j (idx ! 0 * K + idx ! 1)"
      unfolding Let_def f det2_def jacobian_entries [OF s] by (simp add: idx)
  qed
  moreover have "\<not> (\<exists>b \<in> set [0..<numel (take 2 [bs, K, 2, 2])]. det2 j b = 0)"
    using ns by (simp add: numel_def)
  moreover have nb: "length [bs, K, 2, 2] - 2 = 2" "drop 2 [bs, K, 2, 2] = [2, 2]"
    "\<not> length [bs, K, 2, 2] < 2"
    by simp_all
  ultimately show ?thesis
    unfolding inverse_t_def s Let_def det2_def nb by simp
qed

lemma det2_lookup:
  assumes "shape j = [bs, K, 2, 2]"
  shows "det2 j (b * K + k)
           = lookup j [b, k, 0, 0] * lookup j [b, k, 1, 1] - lookup j [b, k, 0, 1] * lookup j [b, k, 1, 0]"
  unfolding det2_def jacobian_entries [OF assms] by simp

lemma less_2_cases_nat: "r < 2 \<Longrightarrow> r = 0 \<or> r = (1::nat)"
  by auto

lemma jacobian_product:
  assumes js: "shape js = [bs, K, 2, 2]" and jd: "shape jd = [bs, K, 2, 2]"
    and ns: "\<forall>n < bs * K. det2 jd n \<noteq> 0"
  shows "\<exists>jinv jac. inverse_t jd = Inr jinv \<and> matmul js jinv = Inr jac
           \<and> shape jac = [bs, K, 2, 2]
           \<and> (\<forall>b < bs. \<forall>k < K. \<forall>r < 2.
                 lookup jac [b, k, r, 0]
                   = (lookup js [b, k, r, 0] * lookup jd [b, k, 1, 1]
                      - lookup js [b, k, r, 1] * lookup jd [b, k, 1, 0]) / det2 jd (b * K + k)
               \<and> lookup jac [b, k, r, 1]
                   = (lookup js [b, k, r, 1] * lookup jd [b, k, 0, 0]
                      - lookup js [b, k, r, 0] * lookup jd [b, k, 0, 1]) / det2 jd (b * K + k))"
proof -
  define jinv where "jinv = tabulate [bs, K, 2, 2]
         (\<lambda>idx. (if idx ! 2 = 0 \<and> idx ! 3 = 0 then lookup jd [idx ! 0, idx ! 1, 1, 1]
                  else if idx ! 2 = 0 \<and> idx ! 3 = 1 then - lookup jd [idx ! 0, idx ! 1, 0, 1]
                  else if idx ! 2 = 1 \<and> idx ! 3 = 0 then - lookup jd [idx ! 0, idx ! 1, 1, 0]
                  else lookup jd [idx ! 0, idx ! 1, 0, 0]) / det2 jd (idx ! 0 * K + idx ! 1))"
  define jac where "jac = tabulate [bs, K, 2, 2]
              (\<lambda>idx. sum_list (map (\<lambda>l. lookup js [idx ! 0, idx ! 1, idx ! 2, l]
                                        * lookup jinv [idx ! 0, idx ! 1, l, idx ! 3]) [0..<2]))"
  have inv: "inverse_t jd = Inr jinv"
    unfolding jinv_def by (rule inverse_t_run [OF jd ns])
  have mm: "matmul js jinv = Inr jac"
    unfolding jac_def by (rule matmul_4 [OF js]) (simp add: jinv_def)
  have iv: "lookup jinv [b, k, 0, 0] = lookup jd [b, k, 1, 1] / det2 jd (b * K + k)"
    "lookup jinv [b, k, 0, 1] = - lookup jd [b, k, 0, 1] / det2 jd (b * K + k)"
    "lookup jinv [b, k, 1, 0] = - lookup jd [b, k, 1, 0] / det2 jd (b * K + k)"
    "lookup jinv [b, k, 1, 1] = lookup jd [b, k, 0, 0] / det2 jd (b * K + k)"
    if "b < bs" "k < K" for b k
    using that by (simp_all add: jinv_def lookup_tabulate)
  have "lookup jac [b, k, r, 0]
          = (lookup js [b, k, r, 0] * lookup jd [b, k, 1, 1]
             - lookup js [b, k, r, 1] * lookup jd [b, k, 1, 0]) / det2 jd (b * K + k)
      \<and> lookup jac [b, k, r, 1]
          = (lookup js [b, k, r, 1] * lookup jd [b, k, 0, 0]
             - lookup js [b, k, r, 0] * lookup jd [b, k, 0, 1]) / det2 jd (b * K + k)"
    if "b < bs" "k < K" "r < 2" for b k r
    using that iv [OF that(1,2)]
    by (simp add: jac_def lookup_tabulate sum_list_upt_2 diff_divide_distrib)
  then show ?thesis using inv mm by (auto simp: jac_def)
qed

lemma affine_identity:
  assumes "is_identity_jacobian bs K jac"
  shows "affine_of bs K h w jac (coordinate_grid_of bs K h w dv) = coordinate_grid_of bs K h w dv"
proof -
  have v: "lookup jac [b, k, r, c] = (if r = c then 1 else 0)"
    if "b < bs" "k < K" "r < 2" "c < 2" for b k r c
    using assms that by (simp add: is_identity_jacobian_def)
  show ?thesis
    unfolding affine_of_def
    by (subst (3) coordinate_grid_of_def, rule tabulate_cong, erule valid_index5E)
       (auto simp: v coordinate_grid_of_def lookup_tabulate dest: less_2_cases_nat)
qed

lemma create_sparse_motions_nojac:
  assumes src: "shape source_image = [bs, c, h, w]"
    and pos: "0 < bs" "0 < K" "0 < h" "0 < w"
    and K: "num_kp net = K"
    and dv: "kp_driving ''value'' = Some dv" "shape dv = [bs, K, 2]"
    and sv: "kp_source ''value'' = Some sv" "shape sv = [bs, K, 2]"
    and nj: "kp_driving ''jacobian'' = None"
  shows "create_sparse_motions net source_image kp_driving kp_source
           = Inr (sparse_motions_of bs K h w (coordinate_grid_of bs K h w dv) sv)"
  by (rule create_sparse_motions_run
        [where kp_driving = kp_driving and kp_source = kp_source, OF src pos K dv sv])
     (simp_all add: nj coordinate_grid_of_def)

lemma create_sparse_motions_jac:
  assumes src: "shape source_image = [bs, c, h, w]"
    and pos: "0 < bs" "0 < K" "0 < h" "0 < w"
    and K: "num_kp net = K"
    and dv: "kp_driving ''value'' = Some dv" "shape dv = [bs, K, 2]"
    and sv: "kp_source ''value'' = Some sv" "shape sv = [bs, K, 2]"
    and jd: "kp_driving ''jacobian'' = Some jd"
    and js: "kp_source ''jacobian'' = Some js"
    and inv: "inverse_t jd = Inr jinv"
    and mm: "matmul js jinv = Inr jac"
    and jac: "shape jac = [bs, K, 2, 2]"
  shows "create_sparse_motions net source_image kp_driving kp_source
           = Inr (sparse_motions_of bs K h w
                    (affine_of bs K h w jac (coordinate_grid_of bs K h w dv)) sv)"
proof (rule create_sparse_motions_run
        [where kp_driving = kp_driving and kp_source = kp_source, OF src pos K dv sv])
  have "jacobian_branch h w kp_driving kp_source (coordinate_grid_of bs K h w dv)
          = Inr (affine_of bs K h w jac (coordinate_grid_of bs K h w dv))"
    by (rule jacobian_branch_run
          [where kp_driving = kp_driving and kp_source = kp_source, OF pos js jd inv mm jac])
       (simp_all add: coordinate_grid_of_def)
  then show "(if kp_driving ''jacobian'' \<noteq> None
        then jacobian_branch h w kp_driving kp_source (coordinate_grid_of bs K h w dv)
        else Inr (coordinate_grid_of bs K h w dv))
       = Inr (affine_of bs K h w jac (coordinate_grid_of bs K h w dv))"
    by (simp add: jd)
  show "shape (affine_of bs K h w jac (coordinate_grid_of bs K h w dv)) = [bs, K, h, w, 2]"
    by (simp add: affine_of_def)
qed

text \<open>
  C6. When both keypoint sets carry the identity matrix as jacobian of every keypoint,
  \<open>create_sparse_motions\<close> returns the very tensor it returns for the same keypoints
  without jacobians.
\<close>

theorem identity_jacobian_is_noop:
  assumes src: "shape source_image = [bs, c, h, w]"
    and pos: "0 < bs" "0 < K" "0 < h" "0 < w"
    and K: "num_kp net = K"
    and dv: "kp_driving ''value'' = Some dv" "shape dv = [bs, K, 2]"
    and sv: "kp_source ''value'' = Some sv" "shape sv = [bs, K, 2]"
    and jd: "kp_driving ''jacobian'' = Some jd" "is_identity_jacobian bs K jd"
    and js: "kp_source ''jacobian'' = Some js" "is_identity_jacobian bs K js"
  shows "\<exists>sm. create_sparse_motions net source_image kp_driving kp_source = Inr sm
            \<and> create_sparse_motions net source_image
                 (kp_driving(''jacobian'' := None)) (kp_source(''jacobian'' := None)) = Inr sm"
proof -
  have sd: "shape jd = [bs, K, 2, 2]" and ss: "shape js = [bs, K, 2, 2]"
    using jd(2) js(2) by (simp_all add: is_identity_jacobian_def)
  have vd: "lookup jd [b, k, r, c] = (if r = c then 1 else 0)"
    and vs: "lookup js [b, k, r, c] = (if r = c then 1 else 0)"
    if "b < bs" "k < K" "r < 2" "c < 2" for b k r c
    using jd(2) js(2) that by (simp_all add: is_identity_jacobian_def)
  have ns: "\<forall>n < bs * K. det2 jd n \<noteq> 0"
    by (simp add: det2_identity [OF jd(2)])
  from jacobian_product [OF ss sd ns] obtain jinv jac where
    inv: "inverse_t jd = Inr jinv" and mm: "matmul js jinv = Inr jac"
    and sj: "shape jac = [bs, K, 2, 2]"
    and vj: "\<And>b k r. b < bs \<Longrightarrow> k < K \<Longrightarrow> r < 2 \<Longrightarrow>
        lookup jac [b, k, r, 0]
          = (lookup js [b, k, r, 0] * lookup jd [b, k, 1, 1]
             - lookup js [b, k, r, 1] * lookup jd [b, k, 1, 0]) / det2 jd (b * K + k)
      \<and> lookup jac [b, k, r, 1]
          = (lookup js [b, k, r, 1] * lookup jd [b, k, 0, 0]
             - lookup js [b, k, r, 0] * lookup jd [b, k, 0, 1]) / det2 jd (b * K + k)"
    by blast
  have "lookup jac [b, k, r, c] = (if r = c then 1 else 0)"
    if "b < bs" "k < K" "r < 2" "c < 2" for b k r c
  proof -
    have d: "det2 jd (b * K + k) = 1"
      by (rule det2_identity [OF jd(2)]) (rule merge_index_less [OF that(1,2)])
    from that(4) have "c = 0 \<or> c = 1" by auto
    then show ?thesis
      using vj [OF that(1-3)] that by (auto simp: d vd vs)
  qed
  then have "is_identity_jacobian bs K jac"
    by (simp add: is_identity_jacobian_def sj)
  then have "affine_of bs K h w jac (coordinate_grid_of bs K h w dv) = coordinate_grid_of bs K h w dv"
    by (rule affine_identity)
  then have "create_sparse_motions net source_image kp_driving kp_source
           = Inr (sparse_motions_of bs K h w (coordinate_grid_of bs K h w dv) sv)"
    using create_sparse_motions_jac
      [where kp_driving = kp_driving and kp_source = kp_source,
       OF src pos K dv sv jd(1) js(1) inv mm sj] by simp
  moreover have "create_sparse_motions net source_image
                 (kp_driving(''jacobian'' := None)) (kp_source(''jacobian'' := None))
           = Inr (sparse_motions_of bs K h w (coordinate_grid_of bs K h w dv) sv)"
    by (rule create_sparse_motions_nojac
          [where kp_driving = "kp_driving(''jacobian'' := None)"
             and kp_source = "kp_source(''jacobian'' := None)", OF src pos K _ dv(2) _ sv(2)])
       (simp_all add: dv sv)
  ultimately show ?thesis by simp
qed

lemma net_ex_fields [simp]:
  "num_kp (net_ex occ sc) = 1" "kp_variance (net_ex occ sc) = 1 / 100"
  "scale_factor (net_ex occ sc) = sc"
  by (simp_all add: net_ex_def init_def Let_def)

lemma id_jac_identity: "is_identity_jacobian 1 1 id_jac"
  unfolding is_identity_jacobian_def
proof (intro conjI allI impI)
  show "shape id_jac = [1, 1, 2, 2]" by (simp add: id_jac_def)
next
  fix b k r c :: nat
  assume "b < 1" "k < 1" "r < 2" "c < 2"
  then have "b = 0" "k = 0" "r = 0 \<or> r = 1" "c = 0 \<or> c = 1" by auto
  then show "lookup id_jac [b, k, r, c] = (if r = c then 1 else 0)"
    by (auto simp: id_jac_def lookup_def)
qed

lemma example_shapes [simp]:
  "shape src_ex = [1, 1, 2, 2]" "shape val_d = [1, 1, 2]" "shape val_s = [1, 1, 2]"
  "shape id_jac = [1, 1, 2, 2]"
  by (simp_all add: src_ex_def val_d_def val_s_def id_jac_def)

lemma example_dicts [simp]:
  "kpd_jac ''value'' = Some val_d" "kps_jac ''value'' = Some val_s"
  "kpd_id ''value'' = Some val_d" "kps_id ''value'' = Some val_s"
  "kpd_id ''jacobian'' = Some id_jac" "kps_id ''jacobian'' = Some id_jac"
  by (simp_all add: kpd_jac_def kps_jac_def kpd_id_def kps_id_def)

theorem heatmap_representation_witness:
  "\<exists>gd gs hm.
      kp2gaussian kpd_jac (2, 2) (kp_variance (net_ex False 1)) = Inr gd
    \<and> kp2gaussian kps_jac (2, 2) (kp_variance (net_ex False 1)) = Inr gs
    \<and> create_heatmap_representations (net_ex False 1) src_ex kpd_jac kps_jac = Inr hm
    \<and> shape hm = [1, 2, 1, 2, 2]
    \<and> lookup hm [0, 0, 0, 1, 1] = 0
    \<and> lookup hm [0, 1, 0, 1, 1] = lookup gd [0, 0, 1, 1] - lookup gs [0, 0, 1, 1]"
proof -
  have "\<exists>gd gs hm.
           kp2gaussian kpd_jac (2, 2) (kp_variance (net_ex False 1)) = Inr gd
         \<and> kp2gaussian kps_jac (2, 2) (kp_variance (net_ex False 1)) = Inr gs
         \<and> create_heatmap_representations (net_ex False 1) src_ex kpd_jac kps_jac = Inr hm
         \<and> shape hm = [1, 1 + 1, 1, 2, 2]
         \<and> (\<forall>b < 1. \<forall>i < 2. \<forall>j < 2.
               lookup hm [b, 0, 0, i, j] = 0
             \<and> (\<forall>k. 1 \<le> k \<and> k \<le> 1 \<longrightarrow>
                    lookup hm [b, k, 0, i, j]
                      = lookup gd [b, k - 1, i, j] - lookup gs [b, k - 1, i, j]))"
  proof (rule heatmap_representation [where kp_driving = kpd_jac and kp_source = kps_jac
          and source_image = src_ex and n = 1 and c = 1 and dv = val_d and sv = val_s])
    show "kpd_jac ''value'' = Some val_d" "kps_jac ''value'' = Some val_s"
      "shape val_d = [1, 1, 2]" "shape val_s = [1, 1, 2]" "shape src_ex = [1, 1, 2, 2]"
      "(0::nat) < 2" "(0::nat) < 2" "kp_variance (net_ex False 1) \<noteq> 0"
      by simp_all
  qed
  then show ?thesis
  proof (elim exE conjE)
    fix gd gs hm
    assume r: "kp2gaussian kpd_jac (2, 2) (kp_variance (net_ex False 1)) = Inr gd"
      "kp2gaussian kps_jac (2, 2) (kp_variance (net_ex False 1)) = Inr gs"
      "create_heatmap_representations (net_ex False 1) src_ex kpd_jac kps_jac = Inr hm"
      "shape hm = [1, 1 + 1, 1, 2, 2]"
    assume v: "\<forall>b < 1. \<forall>i < 2. \<forall>j < 2.
               lookup hm [b, 0, 0, i, j] = 0
             \<and> (\<forall>k. 1 \<le> k \<and> k \<le> 1 \<longrightarrow>
                    lookup hm [b, k, 0, i, j]
                      = lookup gd [b, k - 1, i, j] - lookup gs [b, k - 1, i, j])"
    have lt: "(0::nat) < 1" "(1::nat) < 2" by simp_all
    note v1 = v [rule_format, OF lt(1) lt(2) lt(2)]
    have a: "lookup hm [0, 0, 0, 1, 1] = 0"
      by (rule v1 [THEN conjunct1])
    have "lookup hm [0, 1, 0, 1, 1] = lookup gd [0, 1 - 1, 1, 1] - lookup gs [0, 1 - 1, 1, 1]"
      by (rule v1 [THEN conjunct2, rule_format]) simp
    then have b: "lookup hm [0, 1, 0, 1, 1] = lookup gd [0, 0, 1, 1] - lookup gs [0, 0, 1, 1]"
      by simp
    have s: "shape hm = [1, 2, 1, 2, 2]" using r(4) by simp
    show ?thesis
      by (intro exI [where x = gd] exI [where x = gs] exI [where x = hm] conjI)
         (rule r(1) r(2) r(3) s a b)+
  qed
qed

theorem identity_jacobian_is_noop_witness:
  "is_identity_jacobian 1 1 id_jac
   \<and> kpd_id ''jacobian'' = Some id_jac \<and> kps_id ''jacobian'' = Some id_jac
   \<and> (\<exists>sm. create_sparse_motions (net_ex False 1) src_ex kpd_id kps_id = Inr sm
          \<and> create_sparse_motions (net_ex False 1) src_ex
               (kpd_id(''jacobian'' := None)) (kps_id(''jacobian'' := None)) = Inr sm)"
proof -
  have "\<exists>sm. create_sparse_motions (net_ex False 1) src_ex kpd_id kps_id = Inr sm
          \<and> create_sparse_motions (net_ex False 1) src_ex
               (kpd_id(''jacobian'' := None)) (kps_id(''jacobian'' := None)) = Inr sm"
  proof (rule identity_jacobian_is_noop [where bs = 1 and K = 1 and c = 1 and h = 2 and w = 2
          and jd = id_jac and js = id_jac and dv = val_d and sv = val_s])
    show "shape src_ex = [1, 1, 2, 2]" "(0::nat) < 1" "(0::nat) < 1" "(0::nat) < 2" "(0::nat) < 2"
      "num_kp (net_ex False 1) = 1" "kpd_id ''value'' = Some val_d" "shape val_d = [1, 1, 2]"
      "kps_id ''value'' = Some val_s" "shape val_s = [1, 1, 2]"
      "kpd_id ''jacobian'' = Some id_jac" "kps_id ''jacobian'' = Some id_jac"
      by simp_all
    show "is_identity_jacobian 1 1 id_jac" "is_identity_jacobian 1 1 id_jac"
      by (rule id_jac_identity)+
  qed
  with id_jac_identity example_dicts(5,6) show ?thesis
    by (intro conjI)
qed

end
